theory Spec2Isabelle
  imports Main "HOL-Library.Word" "HOL-Library.Signed_Division" "HOL-Library.Monad_Syntax"
begin

unbundle bit_operations_syntax

section \<open>Machine integers\<close>

text \<open>
  The widget computes with three integer types. \<^verbatim>\<open>uint64_t\<close> (addresses) is a 64-bit word and
  \<^verbatim>\<open>uint\<close> (the offset parameter of the rectangle functions) a 32-bit word: their
  arithmetic wraps around. \<^verbatim>\<open>int\<close> is modelled by \<open>int\<close>: signed overflow is undefined
  in C++, so the model is exact as long as every \<^verbatim>\<open>int\<close> value stays inside 32 bits, and
  the theorems say where they rely on it. On \<^verbatim>\<open>int\<close> the operators \<^verbatim>\<open>/\<close> and \<^verbatim>\<open>%\<close>
  truncate towards zero (\<open>sdiv\<close>, \<open>smod\<close>), and \<^verbatim>\<open>&\<close>, \<^verbatim>\<open>~\<close> are two's complement
  (\<open>AND\<close>, \<open>NOT\<close> on \<open>int\<close>). A division by zero is undefined in C++: a function
  that divides returns \<open>None\<close> there.
\<close>

type_synonym u64 = "64 word"
type_synonym uint = "32 word"
type_synonym byte = "8 word"

definition int_to_u64 :: "int \<Rightarrow> u64" where
  \<comment> \<open>\<^verbatim>\<open>int\<close> to \<^verbatim>\<open>uint64_t\<close>: the value modulo \<open>2^64\<close> (sign extension)\<close>
  "int_to_u64 i = word_of_int i"

definition u64_to_int :: "u64 \<Rightarrow> int" where
  \<comment> \<open>\<^verbatim>\<open>uint64_t\<close> to \<^verbatim>\<open>int\<close>: the low 32 bits, read as two's complement\<close>
  "u64_to_int w = sint (ucast w :: 32 word)"

definition int_to_uint :: "int \<Rightarrow> uint" where
  "int_to_uint i = word_of_int i"

definition uint_to_int :: "uint \<Rightarrow> int" where
  "uint_to_int w = sint w"

definition u64_to_uint :: "u64 \<Rightarrow> uint" where
  "u64_to_uint w = ucast w"

section \<open>Qt geometry values\<close>

text \<open>
  \<^verbatim>\<open>QPoint\<close> and \<^verbatim>\<open>QRect\<close> as Qt stores them: a rectangle is its left, top, right and
  bottom coordinates, the right and bottom ones inclusive, so that
  \<^verbatim>\<open>QRect(x, y, w, h)\<close> has right edge \<open>x + w - 1\<close>.
\<close>

record qpoint =
  px :: int
  py :: int

record qrect =
  qx1 :: int
  qy1 :: int
  qx2 :: int
  qy2 :: int

definition QRect :: "int \<Rightarrow> int \<Rightarrow> int \<Rightarrow> int \<Rightarrow> qrect" where
  "QRect x y w h = \<lparr>qx1 = x, qy1 = y, qx2 = x + w - 1, qy2 = y + h - 1\<rparr>"

definition topLeft :: "qrect \<Rightarrow> qpoint" where
  "topLeft r = \<lparr>px = qx1 r, py = qy1 r\<rparr>"

definition bottomRight :: "qrect \<Rightarrow> qpoint" where
  "bottomRight r = \<lparr>px = qx2 r, py = qy2 r\<rparr>"

definition setLeft :: "int \<Rightarrow> qrect \<Rightarrow> qrect" where
  "setLeft x r = r\<lparr>qx1 := x\<rparr>"

definition setRight :: "int \<Rightarrow> qrect \<Rightarrow> qrect" where
  "setRight x r = r\<lparr>qx2 := x\<rparr>"

definition setTopLeft :: "qpoint \<Rightarrow> qrect \<Rightarrow> qrect" where
  "setTopLeft p r = r\<lparr>qx1 := px p, qy1 := py p\<rparr>"

definition setBottomRight :: "qpoint \<Rightarrow> qrect \<Rightarrow> qrect" where
  "setBottomRight p r = r\<lparr>qx2 := px p, qy2 := py p\<rparr>"

definition setWidth :: "int \<Rightarrow> qrect \<Rightarrow> qrect" where
  "setWidth w r = r\<lparr>qx2 := qx1 r + w - 1\<rparr>"

text \<open>\<^verbatim>\<open>moveLeft\<close> and \<^verbatim>\<open>translate\<close> move a rectangle and keep its size.\<close>

definition moveLeft :: "int \<Rightarrow> qrect \<Rightarrow> qrect" where
  "moveLeft x r = r\<lparr>qx1 := x, qx2 := qx2 r + (x - qx1 r)\<rparr>"

definition translate :: "int \<Rightarrow> int \<Rightarrow> qrect \<Rightarrow> qrect" where
  "translate dx dy r = \<lparr>qx1 = qx1 r + dx, qy1 = qy1 r + dy, qx2 = qx2 r + dx, qy2 = qy2 r + dy\<rparr>"

section \<open>The widget's state\<close>

datatype ItemFormat =
  ItemFormatHex | ItemFormatOct | ItemFormatDec | ItemFormatSignedDec | ItemFormatFloat

record MemoryCache =
  firstBlockAddr :: u64
  firstBlockOffset :: int
  blocks :: "byte list list"

text \<open>
  The members of \<^verbatim>\<open>HexWidget\<close> that the address, geometry, cache and decoding code reads
  and writes. \<open>charWidth\<close> and \<open>lineHeight\<close> are the font metrics;
  \<open>columnSpacingWidth\<close> is the space between two column groups in pixels, what the
  header's \<^verbatim>\<open>columnSpacingWidth()\<close> returns. The painter, the scroll bars, the menu actions
  and the display caches of the cursor (\<^verbatim>\<open>cursor.screenPos\<close>, \<^verbatim>\<open>cachedString\<close>,
  \<^verbatim>\<open>cachedColor\<close> and the shadow cursor's, which only \<^verbatim>\<open>updateCursorMeta\<close> writes and
  only the drawing code reads) are outside the record, and so are the calls that
  touch nothing else: \<^verbatim>\<open>updateCursorMeta()\<close>, \<^verbatim>\<open>viewport()->update()\<close>,
  \<^verbatim>\<open>QAction::setEnabled\<close>.
\<close>

record HexWidget =
  itemByteLen :: int
  itemGroupSize :: int
  itemColumns :: int
  itemFormat :: ItemFormat
  itemBigEndian :: bool
  showExHex :: bool
  showExAddr :: bool
  addrCharLen :: int
  itemCharLen :: int
  itemPrefixLen :: int
  charWidth :: int
  lineHeight :: int
  columnSpacingWidth :: int
  visibleLines :: int
  addrArea :: qrect
  itemArea :: qrect
  asciiArea :: qrect
  startAddress :: u64
  cursor_addr :: u64
  cursor_isVisible :: bool
  cursorEnabled :: bool
  memCache :: MemoryCache

subsection \<open>The inline helpers of the header\<close>

definition itemGroupByteLen :: "HexWidget \<Rightarrow> int" where
  \<comment> \<open>Modelled from the spec: \<^verbatim>\<open>itemGroupByteLen()\<close> is declared in HexWidget.h, which is
      not among the sources; the spec's group byte length is groupSize times itemByteLen.\<close>
  "itemGroupByteLen s = itemGroupSize s * itemByteLen s"

definition itemRowByteLen :: "HexWidget \<Rightarrow> int" where
  \<comment> \<open>Modelled from the spec: \<^verbatim>\<open>itemRowByteLen()\<close> is declared in HexWidget.h; the spec's
      rowByteLen is columnCount times groupSize times itemByteLen.\<close>
  "itemRowByteLen s = itemColumns s * itemGroupByteLen s"

definition bytesPerScreen :: "HexWidget \<Rightarrow> int" where
  \<comment> \<open>Modelled from the spec: \<^verbatim>\<open>bytesPerScreen()\<close> is declared in HexWidget.h; the spec's
      window length is visibleLines times rowByteLen.\<close>
  "bytesPerScreen s = visibleLines s * itemRowByteLen s"

definition itemWidth :: "HexWidget \<Rightarrow> int" where
  \<comment> \<open>Modelled from the spec: \<^verbatim>\<open>itemWidth()\<close> is declared in HexWidget.h; the spec's
      itemPixelWidth is itemCharLen times charWidth.\<close>
  "itemWidth s = itemCharLen s * charWidth s"

definition columnExWidth :: "HexWidget \<Rightarrow> int" where
  \<comment> \<open>Modelled from the spec: \<^verbatim>\<open>columnExWidth()\<close> is declared in HexWidget.h; the spec's
      groupPixelWidth is groupSize times itemPixelWidth plus the inter-group spacing.\<close>
  "columnExWidth s = itemGroupSize s * itemWidth s + columnSpacingWidth s"

section \<open>Addresses, grid positions and pixels\<close>

text \<open>
  \<^verbatim>\<open>HexWidget::itemRectangle(uint offset)\<close>. The divisions are unsigned: the \<^verbatim>\<open>int\<close>
  operands are converted to \<^verbatim>\<open>uint\<close>, and the products are converted back when they are
  stored in the \<^verbatim>\<open>int\<close> variables \<^verbatim>\<open>x\<close> and \<^verbatim>\<open>y\<close>.
\<close>

definition itemRectangle :: "HexWidget \<Rightarrow> uint \<Rightarrow> qrect option" where
  "itemRectangle s offset =
     (if int_to_uint (itemRowByteLen s) = 0 \<or> int_to_uint (itemGroupByteLen s) = 0
         \<or> int_to_uint (itemByteLen s) = 0
      then None
      else
        let y = uint_to_int ((offset div int_to_uint (itemRowByteLen s)) * int_to_uint (lineHeight s));
            offset1 = offset mod int_to_uint (itemRowByteLen s);
            x = uint_to_int ((offset1 div int_to_uint (itemGroupByteLen s)) * int_to_uint (columnExWidth s));
            offset2 = offset1 mod int_to_uint (itemGroupByteLen s);
            x = uint_to_int (int_to_uint x + (offset2 div int_to_uint (itemByteLen s)) * int_to_uint (itemWidth s));
            x = x + qx1 (itemArea s);
            y = y + qy1 (itemArea s)
        in Some (QRect x y (itemWidth s) (lineHeight s)))"

text \<open>\<^verbatim>\<open>HexWidget::asciiRectangle(uint offset)\<close>.\<close>

definition asciiRectangle :: "HexWidget \<Rightarrow> uint \<Rightarrow> qrect option" where
  "asciiRectangle s offset =
     (if int_to_uint (itemRowByteLen s) = 0
      then None
      else
        let y = uint_to_int ((offset div int_to_uint (itemRowByteLen s)) * int_to_uint (lineHeight s));
            offset1 = offset mod int_to_uint (itemRowByteLen s);
            x = uint_to_int (offset1 * int_to_uint (charWidth s));
            x = x + qx1 (asciiArea s);
            y = y + qy1 (asciiArea s)
        in Some (QRect x y (charWidth s) (lineHeight s)))"

text \<open>
  \<^verbatim>\<open>HexWidget::screenPosToAddr(const QPoint &point)\<close>: all divisions are on \<^verbatim>\<open>int\<close>, and
  each \<^verbatim>\<open>int\<close> product is converted to \<^verbatim>\<open>uint64_t\<close> when it is added to the address.
\<close>

definition screenPosToAddr :: "HexWidget \<Rightarrow> qpoint \<Rightarrow> u64 option" where
  "screenPosToAddr s point =
     (if lineHeight s = 0 \<or> columnExWidth s = 0 \<or> itemWidth s = 0
      then None
      else
        let addr = startAddress s;
            ptx = px point - qx1 (itemArea s);
            pty = py point - qy1 (itemArea s);
            addr = addr + int_to_u64 ((pty sdiv lineHeight s) * itemRowByteLen s);
            addr = addr + int_to_u64 ((ptx sdiv columnExWidth s) * itemGroupByteLen s);
            ptx = ptx smod columnExWidth s;
            addr = addr + int_to_u64 ((ptx sdiv itemWidth s) * itemByteLen s)
        in Some addr)"

subsection \<open>Valid layouts\<close>

text \<open>
  The configurations the geometry is meant for: an item of 1, 2, 4 or 8 bytes, at least
  one column and one item per group, a font with positive metrics, no negative
  spacing between groups and no negative number of lines.
\<close>

definition layout_ok :: "HexWidget \<Rightarrow> bool" where
  "layout_ok s \<longleftrightarrow>
     itemByteLen s \<in> {1, 2, 4, 8} \<and> 0 < itemColumns s \<and> 0 < itemGroupSize s \<and>
     0 < itemCharLen s \<and> 0 < charWidth s \<and> 0 < lineHeight s \<and> 0 \<le> columnSpacingWidth s \<and>
     0 \<le> visibleLines s"

text \<open>
  The byte length of the screen, its pixel height and the pixel width of a row are
  \<^verbatim>\<open>int\<close> values: they fit in 31 bits.
\<close>

definition fits_int :: "HexWidget \<Rightarrow> bool" where
  "fits_int s \<longleftrightarrow>
     bytesPerScreen s < 2 ^ 31 \<and> visibleLines s * lineHeight s < 2 ^ 31 \<and>
     itemColumns s * columnExWidth s < 2 ^ 31"

text \<open>
  The window test of \<^verbatim>\<open>setCursorAddr\<close>:
  \<^verbatim>\<open>addr >= startAddress && addr < (startAddress + bytesPerScreen())\<close>.
\<close>

definition in_window :: "HexWidget \<Rightarrow> u64 \<Rightarrow> bool" where
  "in_window s addr \<longleftrightarrow>
     startAddress s \<le> addr \<and> addr < startAddress s + int_to_u64 (bytesPerScreen s)"

text \<open>
  An address to the rectangle of its item and the rectangle's top left corner back to
  an address.
\<close>

definition itemRectangleAddr :: "HexWidget \<Rightarrow> u64 \<Rightarrow> u64 option" where
  "itemRectangleAddr s a =
     Option.bind (itemRectangle s (u64_to_uint (a - startAddress s)))
       (\<lambda>r. screenPosToAddr s (topLeft r))"

section \<open>The paged byte cache\<close>

text \<open>
  \<^verbatim>\<open>Core()->ioRead(addr, len)\<close>, the byte source: it returns a \<^verbatim>\<open>QByteArray\<close>, here a list
  of bytes. The source has no other channel for a failed read.
\<close>

type_synonym ioRead = "u64 \<Rightarrow> int \<Rightarrow> byte list"

text \<open>
  The loop of \<^verbatim>\<open>updateDataCache\<close>, by the number of iterations left:
  \<^verbatim>\<open>for (i = 0; i < len / 4096; ++i, addr += 4096) blocks.append(ioRead(addr, 4096))\<close>.
\<close>

fun read_blocks :: "ioRead \<Rightarrow> u64 \<Rightarrow> nat \<Rightarrow> byte list list" where
  "read_blocks io addr 0 = []"
| "read_blocks io addr (Suc n) = io addr 4096 # read_blocks io (addr + 4096) n"

text \<open>\<^verbatim>\<open>HexWidget::updateDataCache()\<close>.\<close>

definition updateDataCache :: "ioRead \<Rightarrow> HexWidget \<Rightarrow> HexWidget" where
  "updateDataCache io s =
     (let alignedAddr = startAddress s AND NOT (4096 - 1);
          offset = u64_to_int (startAddress s - alignedAddr);
          len = (offset + bytesPerScreen s + (4096 - 1)) AND NOT (4096 - 1)
      in s\<lparr>memCache := (memCache s)\<lparr>
            firstBlockAddr := alignedAddr,
            firstBlockOffset := offset,
            blocks := read_blocks io alignedAddr (nat (len sdiv 4096))\<rparr>\<rparr>)"

text \<open>
  \<^verbatim>\<open>MemoryCache::dataPtr(int offset)\<close>. The pointer it returns is modelled by the index of
  the block and the offset inside it. \<^verbatim>\<open>QList::at\<close> requires a valid index: there is no
  pointer (\<open>None\<close>) when \<^verbatim>\<open>blockId\<close> is not one.
\<close>

definition dataPtr :: "MemoryCache \<Rightarrow> int \<Rightarrow> (nat \<times> int) option" where
  "dataPtr c offset =
     (let totalOffset = offset + firstBlockOffset c;
          blockId = totalOffset sdiv 4096;
          blockOffset = totalOffset smod 4096
      in if 0 \<le> blockId \<and> blockId < int (length (blocks c))
         then Some (nat blockId, blockOffset) else None)"

text \<open>
  Reading \<open>n\<close> bytes through such a pointer: the bytes must lie inside the block's
  byte array.
\<close>

definition read_bytes :: "MemoryCache \<Rightarrow> nat \<times> int \<Rightarrow> nat \<Rightarrow> byte list option" where
  "read_bytes c p n =
     (let b = blocks c ! fst p; k = snd p
      in if 0 \<le> k \<and> k + int n \<le> int (length b) then Some (take n (drop (nat k) b)) else None)"

text \<open>
  The byte at an offset of the window, as \<^verbatim>\<open>renderAscii\<close> reads it:
  \<^verbatim>\<open>*static_cast<const uint8_t *>(memCache.dataPtr(offset))\<close>.
\<close>

definition byteAt :: "MemoryCache \<Rightarrow> int \<Rightarrow> byte option" where
  "byteAt c offset =
     (case dataPtr c offset of
        None \<Rightarrow> None
      | Some p \<Rightarrow> (case read_bytes c p 1 of Some [b] \<Rightarrow> Some b | _ \<Rightarrow> None))"

text \<open>
  What the byte source returns for one address: the page that holds the address is read
  whole, and the byte stands at the offset of the address in its page.
\<close>

definition page_of :: "u64 \<Rightarrow> u64" where
  "page_of a = a AND NOT (4096 - 1)"

definition page_offset :: "u64 \<Rightarrow> nat" where
  "page_offset a = unat (a AND (4096 - 1))"

definition source_byte :: "ioRead \<Rightarrow> u64 \<Rightarrow> byte" where
  "source_byte io a = io (page_of a) 4096 ! page_offset a"

section \<open>Decoding and rendering an item\<close>

text \<open>
  A colour is named by the member of the widget that holds it; the constructor gives
  the five members five different colours. \<open>white\<close> is \<^verbatim>\<open>Qt::white\<close>, the colour in which
  the drawing code prints what is selected.
\<close>

datatype color = defColor | b0x00Color | b0x7fColor | b0xffColor | printableColor | white

definition IS_PRINTABLE :: "byte \<Rightarrow> bool" where
  \<comment> \<open>Modelled from the spec: the macro \<^verbatim>\<open>IS_PRINTABLE\<close> comes from a header that is not
      among the sources; the spec's class is printable ASCII, the bytes 0x20 to 0x7e.\<close>
  "IS_PRINTABLE x \<longleftrightarrow> 0x20 \<le> x \<and> x \<le> 0x7e"

text \<open>
  \<^verbatim>\<open>HexWidget::itemColor(uint8_t byte)\<close>. The source returns the colour through a
  reference to its local variable; the model returns the value of that variable.
\<close>

definition itemColor :: "byte \<Rightarrow> color" where
  "itemColor b =
     (if b = 0x00 then b0x00Color
      else if b = 0x7f then b0x7fColor
      else if b = 0xff then b0xffColor
      else if IS_PRINTABLE b then printableColor
      else defColor)"

text \<open>
  The \<^verbatim>\<open>QVariant\<close> that \<^verbatim>\<open>readItem\<close> returns: invalid, a \<^verbatim>\<open>quint64\<close>, a \<^verbatim>\<open>qint64\<close> (its
  bits), a \<^verbatim>\<open>float\<close> or a \<^verbatim>\<open>double\<close> (their IEEE-754 bits).
\<close>

datatype qvariant = Invalid | ULongLong u64 | LongLong u64 | Float "32 word" | Double u64

text \<open>\<^verbatim>\<open>qFromLittleEndian\<close> and \<^verbatim>\<open>qFromBigEndian\<close> on the bytes read.\<close>

fun le_value :: "byte list \<Rightarrow> nat" where
  "le_value [] = 0"
| "le_value (b # bs) = unat b + 256 * le_value bs"

definition qFromLittleEndian :: "byte list \<Rightarrow> 'a::len word" where
  "qFromLittleEndian bs = of_nat (le_value bs)"

definition qFromBigEndian :: "byte list \<Rightarrow> 'a::len word" where
  "qFromBigEndian bs = of_nat (le_value (rev bs))"

text \<open>
  \<^verbatim>\<open>HexWidget::readItem(int offset, QColor *color)\<close>. The colour is the value of
  \<^verbatim>\<open>*color\<close>, before and after: an item length other than 1, 2, 4 or 8 leaves it as it
  was.
\<close>

definition readItem :: "HexWidget \<Rightarrow> int \<Rightarrow> color \<Rightarrow> (qvariant \<times> color) option" where
  "readItem s offset color =
     do {
       dataPtr \<leftarrow> dataPtr (memCache s) offset;
       let signedItem = (itemFormat s = ItemFormatSignedDec);
       if itemByteLen s = 1 then
         do {
           bs \<leftarrow> read_bytes (memCache s) dataPtr 1;
           let byte = (qFromLittleEndian bs :: 8 word);
           Some (if \<not> signedItem then ULongLong (ucast byte) else LongLong (scast byte),
                 itemColor byte)
         }
       else if itemByteLen s = 2 then
         do {
           bs \<leftarrow> read_bytes (memCache s) dataPtr 2;
           let word = (if itemBigEndian s then qFromBigEndian bs else qFromLittleEndian bs :: 16 word);
           Some (if \<not> signedItem then ULongLong (ucast word) else LongLong (scast word),
                 defColor)
         }
       else if itemByteLen s = 4 then
         do {
           bs \<leftarrow> read_bytes (memCache s) dataPtr 4;
           let dword = (if itemBigEndian s then qFromBigEndian bs else qFromLittleEndian bs :: 32 word);
           Some (if itemFormat s = ItemFormatFloat then Float dword
                 else if \<not> signedItem then ULongLong (ucast dword) else LongLong (scast dword),
                 defColor)
         }
       else if itemByteLen s = 8 then
         do {
           bs \<leftarrow> read_bytes (memCache s) dataPtr 8;
           let qword = (if itemBigEndian s then qFromBigEndian bs else qFromLittleEndian bs :: 64 word);
           Some (if itemFormat s = ItemFormatFloat then Double qword
                 else if \<not> signedItem then ULongLong qword else LongLong qword,
                 defColor)
         }
       else Some (Invalid, color)
     }"

text \<open>
  Qt's number formatting, \<^verbatim>\<open>QString("%1").arg(a, fieldWidth, base, fillChar)\<close>: the digits
  of the number in the base, lower case, padded with the fill character to the field
  width, on the left when the width is positive and on the right when it is negative.
\<close>

definition digit_char :: "nat \<Rightarrow> char" where
  "digit_char d = ''0123456789abcdefghijklmnopqrstuvwxyz'' ! d"

function digits :: "nat \<Rightarrow> nat \<Rightarrow> string" where
  "digits base n =
     (if base < 2 \<or> n < base then [digit_char n]
      else digits base (n div base) @ [digit_char (n mod base)])"
  by pat_completeness auto
termination
  by (relation "measure snd") auto

declare digits.simps [simp del]

definition pad_field :: "int \<Rightarrow> char \<Rightarrow> string \<Rightarrow> string" where
  "pad_field fieldWidth fillChar str =
     (if 0 \<le> fieldWidth then replicate (nat fieldWidth - length str) fillChar @ str
      else str @ replicate (nat (- fieldWidth) - length str) fillChar)"

definition arg_ulonglong :: "u64 \<Rightarrow> int \<Rightarrow> nat \<Rightarrow> char \<Rightarrow> string" where
  "arg_ulonglong a fieldWidth base fillChar = pad_field fieldWidth fillChar (digits base (unat a))"

text \<open>The signed overload, which the widget calls with base 10 only.\<close>

definition arg_longlong :: "u64 \<Rightarrow> int \<Rightarrow> char \<Rightarrow> string" where
  "arg_longlong a fieldWidth fillChar =
     pad_field fieldWidth fillChar
       (if sint a < 0 then CHR ''-'' # digits 10 (nat (- sint a)) else digits 10 (nat (sint a)))"

text \<open>
  How Qt converts floating-point numbers is a parameter: the conversion of a \<^verbatim>\<open>float\<close>
  or \<^verbatim>\<open>double\<close> variant to an integer, and the characters that stand for the number
  \<^verbatim>\<open>v.toDouble()\<close> in the format \<^verbatim>\<open>'g'\<close>, which is the format of
  \<^verbatim>\<open>QString("%1").arg(v.toDouble(), fieldWidth)\<close>.
\<close>

record qt_float =
  float_toULongLong :: "qvariant \<Rightarrow> u64"
  float_toLongLong :: "qvariant \<Rightarrow> u64"
  double_text :: "qvariant \<Rightarrow> string"

text \<open>
  The overload for \<^verbatim>\<open>double\<close>, \<^verbatim>\<open>QString("%1").arg(a, fieldWidth)\<close>: it pads the characters
  of the number to the field width with spaces, as the integer overloads do.
\<close>

definition arg_double :: "qt_float \<Rightarrow> qvariant \<Rightarrow> int \<Rightarrow> string" where
  "arg_double fp a fieldWidth = pad_field fieldWidth CHR '' '' (double_text fp a)"

definition toULongLong :: "qt_float \<Rightarrow> qvariant \<Rightarrow> u64" where
  "toULongLong fp v =
     (case v of Invalid \<Rightarrow> 0 | ULongLong x \<Rightarrow> x | LongLong x \<Rightarrow> x | _ \<Rightarrow> float_toULongLong fp v)"

definition toLongLong :: "qt_float \<Rightarrow> qvariant \<Rightarrow> u64" where
  "toLongLong fp v =
     (case v of Invalid \<Rightarrow> 0 | ULongLong x \<Rightarrow> x | LongLong x \<Rightarrow> x | _ \<Rightarrow> float_toLongLong fp v)"

definition hexPrefix :: string where
  \<comment> \<open>Modelled from the spec: the member \<^verbatim>\<open>hexPrefix\<close> is initialised in HexWidget.h; the
      spec's prefix for multi-byte hexadecimal items is "0x".\<close>
  "hexPrefix = ''0x''"

text \<open>\<^verbatim>\<open>HexWidget::renderItem(int offset, QColor *color)\<close>.\<close>

definition renderItem :: "qt_float \<Rightarrow> HexWidget \<Rightarrow> int \<Rightarrow> color \<Rightarrow> (string \<times> color) option" where
  "renderItem fp s offset color =
     do {
       (itemVal, color) \<leftarrow> readItem s offset color;
       let itemLen = itemCharLen s - itemPrefixLen s;
       let item =
         (case itemFormat s of
            ItemFormatHex \<Rightarrow>
              let item = arg_ulonglong (toULongLong fp itemVal) itemLen 16 CHR ''0''
              in if itemByteLen s > 1 \<and> showExHex s then hexPrefix @ item else item
          | ItemFormatOct \<Rightarrow> arg_ulonglong (toULongLong fp itemVal) itemLen 8 CHR ''0''
          | ItemFormatDec \<Rightarrow> arg_ulonglong (toULongLong fp itemVal) itemLen 10 CHR '' ''
          | ItemFormatSignedDec \<Rightarrow> arg_longlong (toLongLong fp itemVal) itemLen CHR '' ''
          | ItemFormatFloat \<Rightarrow> arg_double fp itemVal itemLen);
       Some (item, color)
     }"

text \<open>\<^verbatim>\<open>HexWidget::renderAscii(int offset, QColor *color)\<close>.\<close>

definition renderAscii :: "HexWidget \<Rightarrow> int \<Rightarrow> (char \<times> color) option" where
  "renderAscii s offset =
     do {
       byte \<leftarrow> byteAt (memCache s) offset;
       let color = itemColor byte;
       let byte = (if \<not> IS_PRINTABLE byte then 0x2e else byte);
       Some (char_of (unat byte), color)
     }"

section \<open>Cursor navigation\<close>

text \<open>
  \<^verbatim>\<open>HexWidget::setCursorAddr(uint64_t addr)\<close>. \<^verbatim>\<open>addr % itemRowByteLen()\<close> is an unsigned
  64-bit remainder: the row length is converted to \<^verbatim>\<open>uint64_t\<close>, and the function has
  no result (\<open>None\<close>) when it divides by zero.
\<close>

definition setCursorAddr :: "ioRead \<Rightarrow> u64 \<Rightarrow> HexWidget \<Rightarrow> HexWidget option" where
  "setCursorAddr io addr s =
     (let s = s\<lparr>cursor_addr := addr, cursorEnabled := False\<rparr> in
      if \<not> (addr \<ge> startAddress s \<and> addr < startAddress s + int_to_u64 (bytesPerScreen s)) then
        if itemRowByteLen s \<noteq> 1 \<and> int_to_u64 (itemRowByteLen s) = 0 then None
        else
          let addr = (if itemRowByteLen s \<noteq> 1
                      then addr - addr mod int_to_u64 (itemRowByteLen s) else addr);
              s = (if addr = startAddress s + int_to_u64 (bytesPerScreen s)
                   then s\<lparr>startAddress := startAddress s + int_to_u64 (itemRowByteLen s)\<rparr>
                   else s\<lparr>startAddress := addr\<rparr>);
              s = updateDataCache io s
          in Some (s\<lparr>cursor_isVisible := True, cursorEnabled := True\<rparr>)
      else Some (s\<lparr>cursor_isVisible := True, cursorEnabled := True\<rparr>))"

text \<open>\<^verbatim>\<open>HexWidget::moveCursor(int offset)\<close>.\<close>

definition moveCursor :: "ioRead \<Rightarrow> int \<Rightarrow> HexWidget \<Rightarrow> HexWidget option" where
  "moveCursor io offset s = setCursorAddr io (cursor_addr s + int_to_u64 offset) s"

text \<open>
  \<^verbatim>\<open>HexWidget::keyPressEvent(QKeyEvent *event)\<close>, by the standard key that the event
  matches.
\<close>

datatype StandardKey =
  MoveToNextLine | MoveToPreviousLine | MoveToNextChar | MoveToPreviousChar
  | MoveToNextPage | MoveToPreviousPage | OtherKey

definition keyPressEvent :: "ioRead \<Rightarrow> StandardKey \<Rightarrow> HexWidget \<Rightarrow> HexWidget option" where
  "keyPressEvent io event s =
     (case event of
        MoveToNextLine \<Rightarrow> moveCursor io (itemRowByteLen s) s
      | MoveToPreviousLine \<Rightarrow> moveCursor io (- itemRowByteLen s) s
      | MoveToNextChar \<Rightarrow> moveCursor io (itemByteLen s) s
      | MoveToPreviousChar \<Rightarrow> moveCursor io (- itemByteLen s) s
      | MoveToNextPage \<Rightarrow> moveCursor io (visibleLines s * itemRowByteLen s) s
      | MoveToPreviousPage \<Rightarrow> moveCursor io (visibleLines s * itemRowByteLen s) s
      | OtherKey \<Rightarrow> Some s)"

text \<open>
  The row-aligned address of the spec: the largest multiple of the row length that is
  not above the address.
\<close>

definition row_aligned :: "HexWidget \<Rightarrow> u64 \<Rightarrow> u64" where
  "row_aligned s addr = word_of_int (uint addr - uint addr mod itemRowByteLen s)"

section \<open>Configuration setters\<close>

text \<open>
  \<^verbatim>\<open>updateAreasPosition\<close> calls three more inline helpers of the header, of which the
  spec says nothing; they are parameters.
\<close>

record header =
  areaSpacingWidth :: "HexWidget \<Rightarrow> int"
  itemRowWidth :: "HexWidget \<Rightarrow> int"
  asciiRowWidth :: "HexWidget \<Rightarrow> int"

text \<open>\<^verbatim>\<open>HexWidget::updateAreasPosition()\<close>.\<close>

definition updateAreasPosition :: "header \<Rightarrow> HexWidget \<Rightarrow> HexWidget" where
  "updateAreasPosition h s =
     (let spacingWidth = areaSpacingWidth h s;
          s = s\<lparr>addrArea := setTopLeft \<lparr>px = 0, py = 0\<rparr> (addrArea s)\<rparr>;
          s = s\<lparr>addrArea :=
                setWidth ((addrCharLen s + (if showExAddr s then 2 else 0)) * charWidth s) (addrArea s)\<rparr>;
          s = s\<lparr>itemArea := setTopLeft \<lparr>px = qx2 (addrArea s) + spacingWidth, py = 0\<rparr> (itemArea s)\<rparr>;
          s = s\<lparr>itemArea := setWidth (itemRowWidth h s) (itemArea s)\<rparr>;
          s = s\<lparr>asciiArea := setTopLeft \<lparr>px = qx2 (itemArea s) + spacingWidth, py = 0\<rparr> (asciiArea s)\<rparr>;
          s = s\<lparr>asciiArea := setWidth (asciiRowWidth h s) (asciiArea s)\<rparr>
      in s)"

text \<open>\<^verbatim>\<open>HexWidget::updateItemLength()\<close>.\<close>

definition updateItemLength :: "header \<Rightarrow> HexWidget \<Rightarrow> HexWidget" where
  "updateItemLength h s =
     (let s = s\<lparr>itemPrefixLen := 0\<rparr>;
          s = (case itemFormat s of
                 ItemFormatHex \<Rightarrow>
                   let s = s\<lparr>itemCharLen := 2 * itemByteLen s\<rparr>
                   in if itemByteLen s > 1 \<and> showExHex s
                      then s\<lparr>itemPrefixLen := int (length hexPrefix)\<rparr> else s
               | ItemFormatOct \<Rightarrow> s\<lparr>itemCharLen := (itemByteLen s * 8 + 3) sdiv 3\<rparr>
               | ItemFormatDec \<Rightarrow>
                   if itemByteLen s = 1 then s\<lparr>itemCharLen := 3\<rparr>
                   else if itemByteLen s = 2 then s\<lparr>itemCharLen := 5\<rparr>
                   else if itemByteLen s = 4 then s\<lparr>itemCharLen := 10\<rparr>
                   else if itemByteLen s = 8 then s\<lparr>itemCharLen := 20\<rparr>
                   else s
               | ItemFormatSignedDec \<Rightarrow>
                   if itemByteLen s = 1 then s\<lparr>itemCharLen := 4\<rparr>
                   else if itemByteLen s = 2 then s\<lparr>itemCharLen := 6\<rparr>
                   else if itemByteLen s = 4 then s\<lparr>itemCharLen := 11\<rparr>
                   else if itemByteLen s = 8 then s\<lparr>itemCharLen := 20\<rparr>
                   else s
               | ItemFormatFloat \<Rightarrow>
                   let s = (if itemByteLen s < 4 then s\<lparr>itemByteLen := 4\<rparr> else s)
                   in s\<lparr>itemCharLen := 3 * itemByteLen s\<rparr>);
          s = s\<lparr>itemCharLen := itemCharLen s + itemPrefixLen s\<rparr>;
          s = (if itemByteLen s = 1 \<and> itemFormat s = ItemFormatHex then s
               else s\<lparr>itemGroupSize := 1\<rparr>)
      in updateAreasPosition h s)"

text \<open>\<^verbatim>\<open>HexWidget::setItemSize(int nbytes)\<close>.\<close>

definition setItemSize :: "header \<Rightarrow> ioRead \<Rightarrow> int \<Rightarrow> HexWidget \<Rightarrow> HexWidget" where
  "setItemSize h io nbytes s =
     (if nbytes \<notin> set [1, 2, 4, 8] then s
      else updateDataCache io (updateItemLength h (s\<lparr>itemByteLen := nbytes\<rparr>)))"

text \<open>\<^verbatim>\<open>HexWidget::setItemFormat(ItemFormat format)\<close>.\<close>

definition setItemFormat :: "header \<Rightarrow> ioRead \<Rightarrow> ItemFormat \<Rightarrow> HexWidget \<Rightarrow> HexWidget" where
  "setItemFormat h io format s =
     updateDataCache io (updateItemLength h (s\<lparr>itemFormat := format\<rparr>))"

text \<open>\<^verbatim>\<open>HexWidget::setItemGroupSize(int size)\<close>.\<close>

definition setItemGroupSize :: "header \<Rightarrow> ioRead \<Rightarrow> int \<Rightarrow> HexWidget \<Rightarrow> HexWidget" where
  "setItemGroupSize h io size' s =
     updateDataCache io (updateAreasPosition h (s\<lparr>itemGroupSize := size'\<rparr>))"

text \<open>\<^verbatim>\<open>HexWidget::setColumnCount(int columns)\<close>.\<close>

definition setColumnCount :: "ioRead \<Rightarrow> int \<Rightarrow> HexWidget \<Rightarrow> HexWidget" where
  "setColumnCount io columns s = updateDataCache io (s\<lparr>itemColumns := columns\<rparr>)"

text \<open>\<^verbatim>\<open>HexWidget::setItemEndianess(bool bigEndian)\<close>.\<close>

definition setItemEndianess :: "bool \<Rightarrow> HexWidget \<Rightarrow> HexWidget" where
  "setItemEndianess bigEndian s = s\<lparr>itemBigEndian := bigEndian\<rparr>"

section \<open>The selection background\<close>

text \<open>
  The class of \<^verbatim>\<open>selection\<close> is declared in the header. The drawing code reads three
  things from it, which are parameters here: \<^verbatim>\<open>selection.start()\<close>, \<^verbatim>\<open>selection.end()\<close>
  and \<^verbatim>\<open>selection.intersects(from, to)\<close>. The code treats both addresses as selected:
  \<^verbatim>\<open>drawItemArea\<close> draws an item as selected when
  \<^verbatim>\<open>itemOffset >= selStartOffset && itemOffset <= selEndOffset\<close>.
\<close>

record HexSelection =
  sel_start :: u64
  sel_end :: u64
  sel_intersects :: "u64 \<Rightarrow> u64 \<Rightarrow> bool"

text \<open>
  \<^verbatim>\<open>HexWidget::fillSelectionBackground(QPainter &painter, bool ascii)\<close>: the rectangles
  that it fills, in the order of the \<^verbatim>\<open>painter.fillRect\<close> calls. The bottom right corner
  of the main body comes from \<^verbatim>\<open>asciiRectangle\<close> in both panes, as the source has it.
\<close>

definition fillSelectionBackground :: "HexWidget \<Rightarrow> HexSelection \<Rightarrow> bool \<Rightarrow> qrect list option" where
  "fillSelectionBackground s selection ascii =
     (let area = (if ascii then asciiArea s else itemArea s);
          rectangle = (\<lambda>offset. if ascii then asciiRectangle s (int_to_uint offset)
                                 else itemRectangle s (int_to_uint offset))
      in
      if \<not> sel_intersects selection (startAddress s) (startAddress s + int_to_u64 (bytesPerScreen s))
      then Some []
      else
        let startOffset = u64_to_int (max (sel_start selection) (startAddress s) - startAddress s);
            endOffset = u64_to_int
              (min (sel_end selection) (startAddress s + int_to_u64 (bytesPerScreen s)) - startAddress s);
            startOffset2 = (startOffset + (itemRowByteLen s - 1)) AND NOT (itemRowByteLen s - 1);
            endOffset2 = endOffset AND NOT (itemRowByteLen s - 1)
        in
        do {
          (pieces, startOffset2, endOffset2) \<leftarrow>
            (if startOffset2 \<le> endOffset2 then
               do {
                 top \<leftarrow> (if startOffset \<noteq> startOffset2
                         then map_option (\<lambda>rect. [setRight (qx2 area) rect]) (rectangle startOffset)
                         else Some []);
                 rect \<leftarrow> rectangle endOffset;
                 let bottom = [setLeft (if ascii then qx1 (asciiArea s) else qx1 (itemArea s)) rect];
                 Some (top @ bottom, startOffset2, endOffset2 - 1)
               }
             else Some ([], startOffset, endOffset));
          body \<leftarrow>
            (if startOffset2 \<le> endOffset2 then
               do {
                 rect \<leftarrow> rectangle startOffset2;
                 corner \<leftarrow> asciiRectangle s (int_to_uint endOffset2);
                 Some [setBottomRight (bottomRight corner) rect]
               }
             else Some []);
          Some (pieces @ body)
        })"

text \<open>
  The rectangle of a whole row of a pane: from the left edge of the pane to the right
  edge of the last item, or the last character, of row \<open>k\<close>.
\<close>

definition row_rect :: "HexWidget \<Rightarrow> bool \<Rightarrow> int \<Rightarrow> qrect" where
  "row_rect s ascii k =
     (if ascii then
        \<lparr>qx1 = qx1 (asciiArea s), qy1 = qy1 (asciiArea s) + k * lineHeight s,
         qx2 = qx1 (asciiArea s) + itemRowByteLen s * charWidth s - 1,
         qy2 = qy1 (asciiArea s) + k * lineHeight s + lineHeight s - 1\<rparr>
      else
        \<lparr>qx1 = qx1 (itemArea s), qy1 = qy1 (itemArea s) + k * lineHeight s,
         qx2 = qx1 (itemArea s) + (itemColumns s - 1) * columnExWidth s
                 + itemGroupSize s * itemWidth s - 1,
         qy2 = qy1 (itemArea s) + k * lineHeight s + lineHeight s - 1\<rparr>)"

section \<open>Drawing the panes\<close>

text \<open>
  The painter calls that print one item or one character: \<^verbatim>\<open>painter.drawText\<close> of a
  string in a rectangle with the pen colour, and \<^verbatim>\<open>painter.fillRect\<close> of a rectangle with
  a colour. Each call carries the offset in the window of what it prints.
\<close>

datatype paint = DrawText int qrect color string | FillRect int qrect color

fun paint_offset :: "paint \<Rightarrow> int" where
  "paint_offset (DrawText offset rect color str) = offset"
| "paint_offset (FillRect offset rect color) = offset"

fun paint_color :: "paint \<Rightarrow> color" where
  "paint_color (DrawText offset rect color str) = color"
| "paint_color (FillRect offset rect color) = color"

text \<open>
  The test of both drawing functions for an offset that is printed as selected:
  \<^verbatim>\<open>!selection.isEmpty() && offset >= selStartOffset && offset <= selEndOffset\<close>, where
  the two bounds are \<open>-1\<close> unless the selection intersects the window.
  \<^verbatim>\<open>selection.isEmpty()\<close> is one more parameter, \<open>isEmpty\<close>.
\<close>

definition selectedOffset :: "HexWidget \<Rightarrow> HexSelection \<Rightarrow> bool \<Rightarrow> int \<Rightarrow> bool" where
  "selectedOffset s selection isEmpty offset =
     (let (selStartOffset, selEndOffset) =
            (if sel_intersects selection (startAddress s) (startAddress s + int_to_u64 (bytesPerScreen s))
             then (u64_to_int (max (sel_start selection) (startAddress s) - startAddress s),
                   u64_to_int (min (sel_end selection) (startAddress s + int_to_u64 (bytesPerScreen s))
                                 - startAddress s))
             else (- 1, - 1))
      in \<not> isEmpty \<and> offset \<ge> selStartOffset \<and> offset \<le> selEndOffset)"

text \<open>
  A counting loop \<^verbatim>\<open>for (int i = 0; i < n; ++i)\<close> whose body does not read the counter:
  the body, \<open>n\<close> times, for as long as it has a result.
\<close>

fun for_loop :: "nat \<Rightarrow> ('a \<Rightarrow> 'a option) \<Rightarrow> 'a \<Rightarrow> 'a option" where
  "for_loop 0 body st = Some st"
| "for_loop (Suc n) body st = Option.bind (body st) (for_loop n body)"

text \<open>
  The variables of the loops of \<^verbatim>\<open>drawItemArea\<close>: \<^verbatim>\<open>itemOffset\<close>, \<^verbatim>\<open>itemRect\<close> and the
  local \<^verbatim>\<open>itemColor\<close> (here \<open>penColor\<close>), with the calls made so far.
\<close>

record item_loop =
  itemOffset :: int
  itemRect :: qrect
  penColor :: color
  itemCalls :: "paint list"

text \<open>The body of the innermost loop of \<^verbatim>\<open>drawItemArea\<close>, with its increment.\<close>

definition drawItem :: "qt_float \<Rightarrow> HexWidget \<Rightarrow> HexSelection \<Rightarrow> bool \<Rightarrow> item_loop \<Rightarrow> item_loop option" where
  "drawItem fp s selection isEmpty st =
     do {
       (itemString, color) \<leftarrow> renderItem fp s (itemOffset st) (penColor st);
       let color = (if selectedOffset s selection isEmpty (itemOffset st) then white else color);
       Some (st\<lparr>itemCalls := itemCalls st @ [DrawText (itemOffset st) (itemRect st) color itemString],
                itemRect := translate (itemWidth s) 0 (itemRect st),
                penColor := color,
                itemOffset := itemOffset st + itemByteLen s\<rparr>)
     }"

text \<open>The bodies of the loop over the columns and of the loop over the lines.\<close>

definition drawItemColumn :: "qt_float \<Rightarrow> HexWidget \<Rightarrow> HexSelection \<Rightarrow> bool \<Rightarrow> item_loop \<Rightarrow> item_loop option" where
  "drawItemColumn fp s selection isEmpty st =
     do {
       st \<leftarrow> for_loop (nat (itemGroupSize s)) (drawItem fp s selection isEmpty) st;
       Some (st\<lparr>itemRect := translate (columnSpacingWidth s) 0 (itemRect st)\<rparr>)
     }"

definition drawItemLine :: "qt_float \<Rightarrow> HexWidget \<Rightarrow> HexSelection \<Rightarrow> bool \<Rightarrow> item_loop \<Rightarrow> item_loop option" where
  "drawItemLine fp s selection isEmpty st =
     do {
       st \<leftarrow> for_loop (nat (itemColumns s)) (drawItemColumn fp s selection isEmpty)
               (st\<lparr>itemRect := moveLeft (qx1 (itemArea s)) (itemRect st)\<rparr>);
       Some (st\<lparr>itemRect := translate 0 (lineHeight s) (itemRect st)\<rparr>)
     }"

text \<open>
  \<^verbatim>\<open>HexWidget::drawItemArea(QPainter &painter)\<close>: the \<^verbatim>\<open>drawText\<close> calls of its loops, in
  their order. The rectangles that \<^verbatim>\<open>fillSelectionBackground\<close> fills before the loops and
  the line that is drawn after them are not in the list. \<open>color0\<close> is the local
  \<^verbatim>\<open>itemColor\<close> as it is declared.
\<close>

definition drawItemArea :: "qt_float \<Rightarrow> HexWidget \<Rightarrow> HexSelection \<Rightarrow> bool \<Rightarrow> color \<Rightarrow> paint list option" where
  "drawItemArea fp s selection isEmpty color0 =
     do {
       background \<leftarrow> fillSelectionBackground s selection False;
       st \<leftarrow> for_loop (nat (visibleLines s)) (drawItemLine fp s selection isEmpty)
               \<lparr>itemOffset = 0,
                itemRect = QRect (px (topLeft (itemArea s))) (py (topLeft (itemArea s)))
                             (itemWidth s) (lineHeight s),
                penColor = color0, itemCalls = []\<rparr>;
       Some (itemCalls st)
     }"

text \<open>
  The variables of the loops of \<^verbatim>\<open>drawAsciiArea\<close>: \<^verbatim>\<open>byteId\<close> and \<^verbatim>\<open>charRect\<close>, with the
  calls made so far. \<^verbatim>\<open>renderAscii\<close> sets the local \<^verbatim>\<open>color\<close> in every iteration.
\<close>

record ascii_loop =
  byteId :: int
  charRect :: qrect
  asciiCalls :: "paint list"

text \<open>
  The body of the inner loop of \<^verbatim>\<open>drawAsciiArea\<close>, with its increment. A dot is a filled
  square, whose side \<^verbatim>\<open>cursor.screenPos.width()\<close> is the parameter \<open>cursorWidth\<close>.
\<close>

definition drawAscii :: "HexWidget \<Rightarrow> HexSelection \<Rightarrow> bool \<Rightarrow> int \<Rightarrow> ascii_loop \<Rightarrow> ascii_loop option" where
  "drawAscii s selection isEmpty cursorWidth st =
     do {
       (ascii, color) \<leftarrow> renderAscii s (byteId st);
       let color = (if selectedOffset s selection isEmpty (byteId st) then white else color);
       let call =
         (if ascii = CHR ''.'' then
            let a = cursorWidth;
                x = qx1 (charRect st) + (charWidth s - a) sdiv 2 + 1;
                y = qy2 (charRect st) - 2 * a
            in FillRect (byteId st) (QRect x y a a) color
          else DrawText (byteId st) (charRect st) color [ascii]);
       Some (st\<lparr>asciiCalls := asciiCalls st @ [call],
                charRect := translate (charWidth s) 0 (charRect st),
                byteId := byteId st + 1\<rparr>)
     }"

definition drawAsciiLine :: "HexWidget \<Rightarrow> HexSelection \<Rightarrow> bool \<Rightarrow> int \<Rightarrow> ascii_loop \<Rightarrow> ascii_loop option" where
  "drawAsciiLine s selection isEmpty cursorWidth st =
     do {
       st \<leftarrow> for_loop (nat (itemRowByteLen s)) (drawAscii s selection isEmpty cursorWidth)
               (st\<lparr>charRect := moveLeft (qx1 (asciiArea s)) (charRect st)\<rparr>);
       Some (st\<lparr>charRect := translate 0 (lineHeight s) (charRect st)\<rparr>)
     }"

text \<open>
  \<^verbatim>\<open>HexWidget::drawAsciiArea(QPainter &painter)\<close>: the \<^verbatim>\<open>drawText\<close> and \<^verbatim>\<open>fillRect\<close> calls
  of its loops, in their order, without the rectangles that \<^verbatim>\<open>fillSelectionBackground\<close>
  fills before the loops.
\<close>

definition drawAsciiArea :: "HexWidget \<Rightarrow> HexSelection \<Rightarrow> bool \<Rightarrow> int \<Rightarrow> paint list option" where
  "drawAsciiArea s selection isEmpty cursorWidth =
     do {
       background \<leftarrow> fillSelectionBackground s selection True;
       st \<leftarrow> for_loop (nat (visibleLines s)) (drawAsciiLine s selection isEmpty cursorWidth)
               \<lparr>byteId = 0,
                charRect = QRect (px (topLeft (asciiArea s))) (py (topLeft (asciiArea s)))
                             (charWidth s) (lineHeight s),
                asciiCalls = []\<rparr>;
       Some (asciiCalls st)
     }"

text \<open>
  The colour of the class of a byte, written out: the bytes 00, 7f and ff have a colour
  each, the bytes 20 to 7e are printable, and every other byte has the default colour.
\<close>

definition class_color :: "byte \<Rightarrow> color" where
  "class_color b =
     (if b = 0x00 then b0x00Color
      else if b = 0x7f then b0x7fColor
      else if b = 0xff then b0xffColor
      else if 0x20 \<le> b \<and> b \<le> 0x7e then printableColor
      else defColor)"

text \<open>
  The \<open>n\<close> bytes at an offset of the window can be read from the cache: there is a
  pointer for the offset, and the block has the bytes.
\<close>

definition cached :: "HexWidget \<Rightarrow> int \<Rightarrow> nat \<Rightarrow> bool" where
  "cached s offset n \<longleftrightarrow>
     (case dataPtr (memCache s) offset of
        None \<Rightarrow> False
      | Some p \<Rightarrow> read_bytes (memCache s) p n \<noteq> None)"

text \<open>
  The colour of a call of the item pane and of a call of the text pane: white for a
  selected offset; otherwise, in the item pane, the colour of the class of the byte for
  items of one byte and the default colour for longer items, and in the text pane the
  colour of the class of the byte.
\<close>

definition item_pen :: "HexWidget \<Rightarrow> HexSelection \<Rightarrow> bool \<Rightarrow> paint \<Rightarrow> bool" where
  "item_pen s selection isEmpty p \<longleftrightarrow>
     Some (paint_color p) =
       (if selectedOffset s selection isEmpty (paint_offset p) then Some white
        else if itemByteLen s = 1 then map_option class_color (byteAt (memCache s) (paint_offset p))
        else Some defColor)"

definition ascii_pen :: "HexWidget \<Rightarrow> HexSelection \<Rightarrow> bool \<Rightarrow> paint \<Rightarrow> bool" where
  "ascii_pen s selection isEmpty p \<longleftrightarrow>
     Some (paint_color p) =
       (if selectedOffset s selection isEmpty (paint_offset p) then Some white
        else map_option class_color (byteAt (memCache s) (paint_offset p)))"

text \<open>
  The invariants of the loops of the two drawing functions: the calls made so far are
  those of the offsets from 0 on, in their order, the loop stands at the next offset,
  and every call has its colour.
\<close>

definition item_inv :: "HexWidget \<Rightarrow> HexSelection \<Rightarrow> bool \<Rightarrow> item_loop \<Rightarrow> bool" where
  "item_inv s selection isEmpty st \<longleftrightarrow>
     map paint_offset (itemCalls st) = map (\<lambda>i. int i * itemByteLen s) [0..<length (itemCalls st)] \<and>
     itemOffset st = int (length (itemCalls st)) * itemByteLen s \<and>
     (\<forall>p \<in> set (itemCalls st). item_pen s selection isEmpty p)"

definition ascii_inv :: "HexWidget \<Rightarrow> HexSelection \<Rightarrow> bool \<Rightarrow> ascii_loop \<Rightarrow> bool" where
  "ascii_inv s selection isEmpty st \<longleftrightarrow>
     map paint_offset (asciiCalls st) = map int [0..<length (asciiCalls st)] \<and>
     byteId st = int (length (asciiCalls st)) \<and>
     (\<forall>p \<in> set (asciiCalls st). ascii_pen s selection isEmpty p)"

section \<open>Example states\<close>

text \<open>
  A widget as the constructor configures it (one-byte hexadecimal items, ungrouped, in
  16 columns), with a font of 8 by 16 pixels, four visible lines, the window at address
  0 and nothing cached.
\<close>

definition widget0 :: HexWidget where
  "widget0 =
     \<lparr>itemByteLen = 1, itemGroupSize = 1, itemColumns = 16, itemFormat = ItemFormatHex,
      itemBigEndian = False, showExHex = True, showExAddr = True, addrCharLen = 16,
      itemCharLen = 2, itemPrefixLen = 0, charWidth = 8, lineHeight = 16,
      columnSpacingWidth = 8, visibleLines = 4,
      addrArea = QRect 0 0 144 64, itemArea = QRect 151 0 376 64, asciiArea = QRect 534 0 128 64,
      startAddress = 0, cursor_addr = 0, cursor_isVisible = True, cursorEnabled = True,
      memCache = \<lparr>firstBlockAddr = 0, firstBlockOffset = 0, blocks = []\<rparr>\<rparr>"

text \<open>The pane widths that go with \<open>widget0\<close>, in a font of 8 by 16 pixels.\<close>

definition header0 :: header where
  "header0 =
     \<lparr>areaSpacingWidth = (\<lambda>s. charWidth s),
      itemRowWidth = (\<lambda>s. itemColumns s * columnExWidth s - columnSpacingWidth s),
      asciiRowWidth = (\<lambda>s. itemRowByteLen s * charWidth s)\<rparr>"

text \<open>A byte source that has the byte \<open>0\<close> at every address.\<close>

definition io_zero :: ioRead where
  "io_zero addr len = replicate (nat len) 0"


text \<open>The widget with a cache that holds the given bytes at offset 0 of the window.\<close>

definition with_bytes :: "byte list \<Rightarrow> HexWidget \<Rightarrow> HexWidget" where
  "with_bytes bs s = s\<lparr>memCache := \<lparr>firstBlockAddr = 0, firstBlockOffset = 0, blocks = [bs]\<rparr>\<rparr>"

text \<open>A stand-in for Qt's floating-point formatting, for the examples without floats.\<close>

definition no_float :: qt_float where
  "no_float = \<lparr>float_toULongLong = (\<lambda>v. 0), float_toLongLong = (\<lambda>v. 0), double_text = (\<lambda>v. [])\<rparr>"

text \<open>
  A stand-in that writes the \<^verbatim>\<open>float\<close> with the bits 3fc00000, which is 1.5, as "1.5".
\<close>

definition float_1_5 :: qt_float where
  "float_1_5 =
     \<lparr>float_toULongLong = (\<lambda>v. 0), float_toLongLong = (\<lambda>v. 0),
      double_text = (\<lambda>v. if v = Float 0x3fc00000 then ''1.5'' else [])\<rparr>"

text \<open>
  The same widget after \<^verbatim>\<open>setItemSize(2)\<close>: two-byte items, six characters wide with
  their prefix.
\<close>

definition widget2 :: HexWidget where
  "widget2 = widget0\<lparr>itemByteLen := 2, itemCharLen := 6, itemPrefixLen := 2\<rparr>"


text \<open>
  The first widget after \<^verbatim>\<open>setItemSize(4)\<close>, with the bytes 78 56 34 12 cached at offset
  0; the same with the member \<open>showExHex\<close> switched off first; and the first widget after
  \<^verbatim>\<open>setItemFormat(ItemFormatSignedDec)\<close>, with the byte ff cached.
\<close>

definition widget_hex4 :: HexWidget where
  "widget_hex4 = with_bytes [0x78, 0x56, 0x34, 0x12] (setItemSize header0 io_zero 4 widget0)"

definition widget_hex4_plain :: HexWidget where
  "widget_hex4_plain =
     with_bytes [0x78, 0x56, 0x34, 0x12]
       (setItemSize header0 io_zero 4 (widget0\<lparr>showExHex := False\<rparr>))"

definition widget_sdec1 :: HexWidget where
  "widget_sdec1 = with_bytes [0xff] (setItemFormat header0 io_zero ItemFormatSignedDec widget0)"

text \<open>
  The first widget after \<^verbatim>\<open>setItemFormat(ItemFormatFloat)\<close>, which makes the items four
  bytes long, with the bytes 00 00 c0 3f cached: the \<^verbatim>\<open>float\<close> 1.5, little-endian.
\<close>

definition widget_float4 :: HexWidget where
  "widget_float4 =
     with_bytes [0x00, 0x00, 0xc0, 0x3f] (setItemFormat header0 io_zero ItemFormatFloat widget0)"

text \<open>Two-byte items with the bytes 00 41 cached at offset 0.\<close>

definition widget2_bytes :: HexWidget where
  "widget2_bytes = with_bytes [0x00, 0x41] widget2"

text \<open>
  A selection from the address \<open>a\<close> to the address \<open>b\<close>, which intersects a window
  that it overlaps.
\<close>

definition selection_of :: "u64 \<Rightarrow> u64 \<Rightarrow> HexSelection" where
  "selection_of a b =
     \<lparr>sel_start = a, sel_end = b, sel_intersects = (\<lambda>lo hi. lo \<le> b \<and> a \<le> hi)\<rparr>"

text \<open>
  A widget of one line of two one-byte items, with the bytes 00 41 cached at offset 0.
\<close>

definition widget_line :: HexWidget where
  "widget_line = with_bytes [0x00, 0x41] (widget0\<lparr>visibleLines := 1, itemColumns := 2\<rparr>)"

text \<open>The first widget after \<^verbatim>\<open>setColumnCount(3)\<close>: rows of three bytes.\<close>

definition widget3 :: HexWidget where
  "widget3 = setColumnCount io_zero 3 widget0"

section \<open>Integer lemmas\<close>

lemma sdiv_nonneg: "0 \<le> a \<Longrightarrow> 0 < b \<Longrightarrow> (a::int) sdiv b = a div b"
  by (simp add: signed_divide_int_def sgn_if)

lemma smod_nonneg: "0 \<le> a \<Longrightarrow> 0 < b \<Longrightarrow> (a::int) smod b = a mod b"
  by (simp add: signed_modulo_int_def sgn_if)

lemma uint_int_to_uint: "0 \<le> i \<Longrightarrow> i < 2 ^ 32 \<Longrightarrow> uint (int_to_uint i) = i"
  by (simp add: int_to_uint_def uint_word_of_int take_bit_int_eq_self)

lemma int_div_le_nonneg: "0 \<le> a \<Longrightarrow> (a::int) div b \<le> a"
  by (cases "a = 0") (simp_all add: int_div_le_self)

lemma int_to_uint_div: 
  assumes "0 \<le> a" "a < 2 ^ 32" "0 < b" "b < 2 ^ 32"
  shows "int_to_uint a div int_to_uint b = int_to_uint (a div b)"
proof (rule word_uint_eqI)
  have "0 \<le> a div b" using assms by (simp add: pos_imp_zdiv_nonneg_iff)
  moreover have "a div b < 2 ^ 32" using assms int_div_le_nonneg [of a b] by simp
  ultimately show "uint (int_to_uint a div int_to_uint b) = uint (int_to_uint (a div b))"
    using assms by (simp add: uint_div uint_int_to_uint)
qed

lemma int_to_uint_mod: 
  assumes "0 \<le> a" "a < 2 ^ 32" "0 < b" "b < 2 ^ 32"
  shows "int_to_uint a mod int_to_uint b = int_to_uint (a mod b)"
proof (rule word_uint_eqI)
  have "0 \<le> a mod b" using assms by simp
  moreover have "a mod b < 2 ^ 32" using assms zmod_le_nonneg_dividend [of a b] by simp
  ultimately show "uint (int_to_uint a mod int_to_uint b) = uint (int_to_uint (a mod b))"
    using assms by (simp add: uint_mod uint_int_to_uint)
qed

lemma int_to_uint_mult: "int_to_uint a * int_to_uint b = int_to_uint (a * b)"
  by (simp add: int_to_uint_def)

lemma int_to_uint_add: "int_to_uint a + int_to_uint b = int_to_uint (a + b)"
  by (simp add: int_to_uint_def)

lemma uint_to_int_small: "0 \<le> i \<Longrightarrow> i < 2 ^ 31 \<Longrightarrow> uint_to_int (int_to_uint i) = i"
  by (simp add: uint_to_int_def int_to_uint_def sint_sbintrunc' signed_take_bit_int_eq_self)

lemma int_to_uint_neq_0: "0 < i \<Longrightarrow> i < 2 ^ 32 \<Longrightarrow> int_to_uint i \<noteq> 0"
  using uint_int_to_uint [of i] by auto

lemma int_div_lt:
  fixes a b q :: int
  assumes "0 < b" "a < q * b"
  shows "a div b < q"
proof (rule ccontr)
  assume "\<not> a div b < q"
  then have "q * b \<le> (a div b) * b" using assms(1) by (simp add: mult_right_mono)
  moreover have "(a div b) * b \<le> a"
    using div_mult_mod_eq [of a b] pos_mod_sign [of b a] assms(1) by linarith
  ultimately show False using assms(2) by simp
qed

lemma mod_lt_pow: "0 < b \<Longrightarrow> b < 2 ^ 31 \<Longrightarrow> (a::int) mod b < 2 ^ 32"
  by (rule less_trans [OF pos_mod_bound]) simp_all

lemma uint_int_to_u64: "0 \<le> i \<Longrightarrow> i < 2 ^ 64 \<Longrightarrow> uint (int_to_u64 i) = i"
  by (simp add: int_to_u64_def uint_word_of_int take_bit_int_eq_self)

lemma u64_to_uint_eq: "u64_to_uint w = int_to_uint (uint w)"
  by (simp add: u64_to_uint_def int_to_uint_def)

lemma u64_mod_itemByteLen:
  assumes "0 < b" "b < 2 ^ 64"
  shows "w mod int_to_u64 b = int_to_u64 (uint w mod b)"
proof (rule word_uint_eqI)
  have "0 \<le> uint w mod b" using assms by simp
  moreover have "uint w mod b < 2 ^ 64" using assms pos_mod_bound [of b "uint w"] by linarith
  ultimately show "uint (w mod int_to_u64 b) = uint (int_to_u64 (uint w mod b))"
    using assms by (simp add: uint_mod uint_int_to_u64)
qed


section \<open>The geometry of a valid layout\<close>

lemma in_window_offset:
  assumes "in_window s a" "0 \<le> bytesPerScreen s" "bytesPerScreen s < 2 ^ 64"
  shows "uint (a - startAddress s) < bytesPerScreen s"
proof -
  from assms(1) have le: "startAddress s \<le> a"
    and lt: "a < startAddress s + int_to_u64 (bytesPerScreen s)"
    by (simp_all add: in_window_def)
  have "uint (startAddress s + int_to_u64 (bytesPerScreen s))
      \<le> uint (startAddress s) + uint (int_to_u64 (bytesPerScreen s))"
    by (simp add: uint_plus_simple_iff uint_add_le) 
  then have "uint a < uint (startAddress s) + bytesPerScreen s"
    using lt assms(2,3) by (simp add: word_less_def uint_int_to_u64)
  moreover have "uint (a - startAddress s) = uint a - uint (startAddress s)"
    using le by (simp add: uint_sub_if' word_le_def)
  ultimately show ?thesis by simp
qed

lemma geom_facts:
  assumes ok: "layout_ok s" and fits: "fits_int s" and off: "0 \<le> off" "off < bytesPerScreen s"
  defines "R \<equiv> itemRowByteLen s" and "G \<equiv> itemGroupByteLen s" and "B \<equiv> itemByteLen s"
    and "CW \<equiv> columnExWidth s" and "IW \<equiv> itemWidth s" and "LH \<equiv> lineHeight s"
  shows "0 < B" "0 < G" "0 < R" "R < 2 ^ 31" "G \<le> R" "B \<le> G" "0 < IW" "0 < CW" "0 < LH"
    "LH < 2 ^ 31" "CW < 2 ^ 31" "IW \<le> CW"
    "0 \<le> off div R" "(off div R) * LH < 2 ^ 31"
    "0 \<le> (off mod R) div G" "((off mod R) div G) * CW + (((off mod R) mod G) div B) * IW < 2 ^ 31"
    "0 \<le> ((off mod R) mod G) div B" "(((off mod R) mod G) div B) * IW < CW"
    "off < 2 ^ 31"
proof -
  have B: "0 < B" using ok by (auto simp: layout_ok_def B_def)
  have gs: "0 < itemGroupSize s" and cols: "0 < itemColumns s" and icl: "0 < itemCharLen s"
    and cw: "0 < charWidth s" and LH: "0 < LH" and sp: "0 \<le> columnSpacingWidth s"
    using ok by (auto simp: layout_ok_def LH_def)
  have Gdef: "G = itemGroupSize s * B" by (simp add: G_def B_def itemGroupByteLen_def)
  have Rdef: "R = itemColumns s * G" by (simp add: R_def G_def itemRowByteLen_def)
  have G: "0 < G" using gs B by (simp add: Gdef)
  have R: "0 < R" using cols G by (simp add: Rdef)
  have "1 * B \<le> itemGroupSize s * B" using gs B by (intro mult_right_mono) simp_all
  then have BG: "B \<le> G" by (simp add: Gdef)
  have "1 * G \<le> itemColumns s * G" using cols G by (intro mult_right_mono) simp_all
  then have GR: "G \<le> R" by (simp add: Rdef)
  have IW: "0 < IW" using icl cw by (simp add: IW_def itemWidth_def)
  have CWdef: "CW = itemGroupSize s * IW + columnSpacingWidth s" by (simp add: CW_def IW_def columnExWidth_def)
  have "1 * IW \<le> itemGroupSize s * IW" using gs IW by (intro mult_right_mono) simp_all
  then have IWCW: "IW \<le> CW" using sp by (simp add: CWdef)
  have CW: "0 < CW" using IW IWCW by simp
  have bps: "bytesPerScreen s = visibleLines s * R" by (simp add: bytesPerScreen_def R_def)
  have "0 < visibleLines s * R" using off unfolding bps by simp
  then have lines: "1 \<le> visibleLines s" using R by (simp add: zero_less_mult_iff)
  show "0 < B" "0 < G" "0 < R"  "G \<le> R" "B \<le> G" "0 < IW" "0 < CW" "0 < LH" "IW \<le> CW"
    by (fact B G R GR BG IW CW LH IWCW)+
  show "off < 2 ^ 31" using off fits by (simp add: fits_int_def)
  have "R \<le> visibleLines s * R" using lines R by simp
  then show "R < 2 ^ 31" using fits by (simp add: fits_int_def bps)
  have "LH \<le> visibleLines s * LH" using lines LH by simp
  then show "LH < 2 ^ 31" using fits by (simp add: fits_int_def LH_def)
  have "CW \<le> itemColumns s * CW" using cols CW by simp
  then show "CW < 2 ^ 31" using fits by (simp add: fits_int_def CW_def)
  show row0: "0 \<le> off div R" using off R by (simp add: pos_imp_zdiv_nonneg_iff)
  have "off div R < visibleLines s" using off R unfolding bps by (intro int_div_lt) simp_all
  then have "(off div R) * LH \<le> visibleLines s * LH" using LH by simp
  then show "(off div R) * LH < 2 ^ 31" using fits by (simp add: fits_int_def LH_def)
  have o1: "0 \<le> off mod R" "off mod R < R" using R by simp_all
  show g0: "0 \<le> (off mod R) div G" using o1 G by (simp add: pos_imp_zdiv_nonneg_iff)
  have g1: "(off mod R) div G < itemColumns s" using o1 G unfolding Rdef by (intro int_div_lt) simp_all
  have o2: "0 \<le> (off mod R) mod G" "(off mod R) mod G < G" using G by simp_all
  show i0: "0 \<le> ((off mod R) mod G) div B" using o2 B by (simp add: pos_imp_zdiv_nonneg_iff)
  have i1: "((off mod R) mod G) div B < itemGroupSize s" using o2 B unfolding Gdef by (intro int_div_lt) simp_all
  have "(((off mod R) mod G) div B) * IW \<le> (itemGroupSize s - 1) * IW"
    using i1 IW by (intro mult_right_mono) simp_all
  then show i2: "(((off mod R) mod G) div B) * IW < CW" using IW sp unfolding CWdef
    by (simp add: algebra_simps)
  have "((off mod R) div G) * CW \<le> (itemColumns s - 1) * CW"
    using g1 CW by (intro mult_right_mono) simp_all
  then have "((off mod R) div G) * CW + (((off mod R) mod G) div B) * IW < itemColumns s * CW"
    using i2 by (simp add: algebra_simps)
  then show "((off mod R) div G) * CW + (((off mod R) mod G) div B) * IW < 2 ^ 31"
    using fits by (simp add: fits_int_def CW_def)
qed

lemma itemRectangle_value:
  assumes ok: "layout_ok s" and fits: "fits_int s" and off: "0 \<le> off" "off < bytesPerScreen s"
  shows "itemRectangle s (int_to_uint off) =
    Some (QRect
      (((off mod itemRowByteLen s) div itemGroupByteLen s) * columnExWidth s
        + (((off mod itemRowByteLen s) mod itemGroupByteLen s) div itemByteLen s) * itemWidth s
        + qx1 (itemArea s))
      ((off div itemRowByteLen s) * lineHeight s + qy1 (itemArea s))
      (itemWidth s) (lineHeight s))"
proof -
  note f = geom_facts [OF ok fits off]
  let ?R = "itemRowByteLen s" and ?G = "itemGroupByteLen s" and ?B = "itemByteLen s"
  let ?o1 = "off mod ?R"
  let ?o2 = "?o1 mod ?G"
  have o1: "0 \<le> ?o1" "?o1 < 2 ^ 32" using f(3,4) mod_lt_pow [of ?R off] by simp_all
  have o2: "0 \<le> ?o2" "?o2 < 2 ^ 32" using f(2,3,4,5) mod_lt_pow [of ?G ?o1] by simp_all
  have nzR: "int_to_uint ?R \<noteq> 0" by (rule int_to_uint_neq_0) (use f(1-6) in simp_all)
  have nzG: "int_to_uint ?G \<noteq> 0" by (rule int_to_uint_neq_0) (use f(1-6) in simp_all)
  have nzB: "int_to_uint ?B \<noteq> 0" by (rule int_to_uint_neq_0) (use f(1-6) in simp_all)
  note nz = nzR nzG nzB
  have d1: "int_to_uint off div int_to_uint ?R = int_to_uint (off div ?R)"
    using f off by (intro int_to_uint_div) simp_all
  have m1: "int_to_uint off mod int_to_uint ?R = int_to_uint ?o1"
    using f off by (intro int_to_uint_mod) simp_all
  have d2: "int_to_uint ?o1 div int_to_uint ?G = int_to_uint (?o1 div ?G)"
    using f o1 by (intro int_to_uint_div) simp_all
  have m2: "int_to_uint ?o1 mod int_to_uint ?G = int_to_uint ?o2"
    using f o1 by (intro int_to_uint_mod) simp_all
  have d3: "int_to_uint ?o2 div int_to_uint ?B = int_to_uint (?o2 div ?B)"
    using f o2 by (intro int_to_uint_div) simp_all
  have y: "uint_to_int (int_to_uint ((off div ?R) * lineHeight s)) = (off div ?R) * lineHeight s"
    using f by (intro uint_to_int_small) simp_all
  have x0: "uint_to_int (int_to_uint ((?o1 div ?G) * columnExWidth s)) = (?o1 div ?G) * columnExWidth s"
  proof (rule uint_to_int_small)
    show "0 \<le> (?o1 div ?G) * columnExWidth s" using f by simp
    have "0 \<le> (?o2 div ?B) * itemWidth s" using f by simp
    then show "(?o1 div ?G) * columnExWidth s < 2 ^ 31" using f(16) by linarith
  qed
  have x1: "uint_to_int (int_to_uint ((?o1 div ?G) * columnExWidth s + (?o2 div ?B) * itemWidth s))
     = (?o1 div ?G) * columnExWidth s + (?o2 div ?B) * itemWidth s"
    using f by (intro uint_to_int_small) simp_all
  show ?thesis
    unfolding itemRectangle_def Let_def
    by (simp only: nz d1 m1 d2 m2 d3 int_to_uint_mult int_to_uint_add y x0 x1 if_False simp_thms)
qed

lemma screenPosToAddr_value:
  assumes ok: "layout_ok s" and fits: "fits_int s" and off: "0 \<le> off" "off < bytesPerScreen s"
    and r: "itemRectangle s (int_to_uint off) = Some r"
  shows "screenPosToAddr s (topLeft r) =
     Some (startAddress s + int_to_u64 (off - off mod itemByteLen s))"
proof -
  note f = geom_facts [OF ok fits off]
  let ?R = "itemRowByteLen s" and ?G = "itemGroupByteLen s" and ?B = "itemByteLen s"
  let ?CW = "columnExWidth s" and ?IW = "itemWidth s" and ?LH = "lineHeight s"
  let ?row = "off div ?R"
  let ?g = "(off mod ?R) div ?G"
  let ?i = "((off mod ?R) mod ?G) div ?B"
  have rv: "r = QRect (?g * ?CW + ?i * ?IW + qx1 (itemArea s)) (?row * ?LH + qy1 (itemArea s)) ?IW ?LH"
    using r itemRectangle_value [OF ok fits off] by simp
  have ptx: "px (topLeft r) - qx1 (itemArea s) = ?g * ?CW + ?i * ?IW"
    and pty: "py (topLeft r) - qy1 (itemArea s) = ?row * ?LH"
    by (simp_all add: rv topLeft_def QRect_def)
  have i0: "0 \<le> ?i * ?IW" using f by simp
  have x0: "0 \<le> ?g * ?CW + ?i * ?IW" using f by simp
  have y0: "0 \<le> ?row * ?LH" using f by simp
  have dy: "(?row * ?LH) sdiv ?LH = ?row" using f y0 by (simp add: sdiv_nonneg)
  have dx: "(?g * ?CW + ?i * ?IW) sdiv ?CW = ?g"
    using f x0 i0 by (simp add: sdiv_nonneg div_pos_pos_trivial)
  have mx: "(?g * ?CW + ?i * ?IW) smod ?CW = ?i * ?IW"
    using f x0 i0 by (simp add: smod_nonneg mod_pos_pos_trivial)
  have di: "(?i * ?IW) sdiv ?IW = ?i" using f i0 by (simp add: sdiv_nonneg)
  have dvd1: "?B dvd ?G" by (simp add: itemGroupByteLen_def)
  have dvd2: "?G dvd ?R" by (simp add: itemRowByteLen_def)
  have "off mod ?R mod ?G mod ?B = off mod ?B"
    using dvd1 dvd2 by (simp add: mod_mod_cancel)
  then have sum: "?row * ?R + ?g * ?G + ?i * ?B = off - off mod ?B"
    using div_mult_mod_eq [of off ?R] div_mult_mod_eq [of "off mod ?R" ?G]
      div_mult_mod_eq [of "off mod ?R mod ?G" ?B] by linarith
  have nz: "?LH \<noteq> 0" "?CW \<noteq> 0" "?IW \<noteq> 0" using f by simp_all
  have "screenPosToAddr s (topLeft r) =
     Some (startAddress s + int_to_u64 (?row * ?R) + int_to_u64 (?g * ?G) + int_to_u64 (?i * ?B))"
    unfolding screenPosToAddr_def Let_def ptx pty dy dx mx di using nz by simp
  also have "\<dots> = Some (startAddress s + int_to_u64 (?row * ?R + ?g * ?G + ?i * ?B))"
    by (simp add: int_to_u64_def)
  finally show ?thesis by (simp only: sum)
qed

lemma itemRectangleAddr_value:
  assumes ok: "layout_ok s" and fits: "fits_int s" and win: "in_window s a"
  shows "itemRectangleAddr s a = Some (a - (a - startAddress s) mod int_to_u64 (itemByteLen s))"
proof -
  let ?off = "uint (a - startAddress s)"
  have bps: "bytesPerScreen s < 2 ^ 31" using fits by (simp add: fits_int_def)
  have "0 \<le> visibleLines s" "0 \<le> itemColumns s" "0 \<le> itemGroupSize s" "0 \<le> itemByteLen s"
    using ok by (auto simp: layout_ok_def)
  then have bps0: "0 \<le> bytesPerScreen s"
    by (simp add: bytesPerScreen_def itemRowByteLen_def itemGroupByteLen_def)
  have off: "0 \<le> ?off" "?off < bytesPerScreen s"
    using in_window_offset [OF win bps0] bps by simp_all
  note f = geom_facts [OF ok fits off]
  obtain r where r: "itemRectangle s (int_to_uint ?off) = Some r"
    using itemRectangle_value [OF ok fits off] by simp
  have "itemRectangleAddr s a = screenPosToAddr s (topLeft r)"
    by (simp add: itemRectangleAddr_def u64_to_uint_eq r)
  also have "\<dots> = Some (startAddress s + int_to_u64 (?off - ?off mod itemByteLen s))"
    by (rule screenPosToAddr_value [OF ok fits off r])
  also have "startAddress s + int_to_u64 (?off - ?off mod itemByteLen s)
     = a - (a - startAddress s) mod int_to_u64 (itemByteLen s)"
  proof -
    have "(a - startAddress s) mod int_to_u64 (itemByteLen s) = int_to_u64 (?off mod itemByteLen s)"
      using f by (intro u64_mod_itemByteLen) simp_all
    moreover have "int_to_u64 (?off - ?off mod itemByteLen s) = int_to_u64 ?off - int_to_u64 (?off mod itemByteLen s)"
      by (simp add: int_to_u64_def)
    moreover have "int_to_u64 ?off = a - startAddress s" by (simp add: int_to_u64_def)
    ultimately show ?thesis by simp
  qed
  finally show ?thesis .
qed

lemma widget2_ok: "layout_ok widget2" "fits_int widget2"
  by (simp_all add: widget2_def widget0_def layout_ok_def fits_int_def bytesPerScreen_def
      itemRowByteLen_def itemGroupByteLen_def columnExWidth_def itemWidth_def)

lemma widget2_window: "in_window widget2 1" "in_window widget2 2"
  by (simp_all add: widget2_def widget0_def in_window_def bytesPerScreen_def itemRowByteLen_def
      itemGroupByteLen_def int_to_u64_def)

section \<open>C1: from an address to its rectangle and back\<close>

text \<open>
  C1, as stated: for every address \<open>a\<close> of the window, the top left corner of the item
  rectangle of \<open>a\<close> maps back to \<open>a\<close>. It fails in a valid layout with two-byte items:
  the address 1 lies in the item that starts at address 0, and its rectangle maps back
  to 0.
\<close>

theorem itemRectangleAddr_not_left_inverse:
  "layout_ok widget2 \<and> fits_int widget2 \<and> in_window widget2 1 \<and>
   itemRectangleAddr widget2 1 \<noteq> Some 1"
proof -
  have "itemRectangleAddr widget2 1 = Some 0"
    by (simp add: itemRectangleAddr_def itemRectangle_def screenPosToAddr_def
        widget2_def widget0_def itemRowByteLen_def itemGroupByteLen_def columnExWidth_def
        itemWidth_def int_to_uint_def uint_to_int_def u64_to_uint_def int_to_u64_def QRect_def
        topLeft_def)
  then show ?thesis using widget2_ok widget2_window by simp
qed

text \<open>
  C1, amended: in a valid layout whose screen fits in \<^verbatim>\<open>int\<close>, for every address \<open>a\<close> of
  the window both functions return, and the top left corner of the item rectangle of
  \<open>a\<close> maps back to the first address of the item that holds \<open>a\<close>, which is \<open>a\<close> minus
  \<open>(a - startAddress) mod itemByteLen\<close>. So it maps back to \<open>a\<close> exactly when \<open>a\<close> is the
  first byte of an item.
\<close>

theorem itemRectangleAddr_item_start:
  assumes "layout_ok s" and "fits_int s" and "in_window s a"
  shows "itemRectangleAddr s a = Some (a - (a - startAddress s) mod int_to_u64 (itemByteLen s)) \<and>
    (itemRectangleAddr s a = Some a) = ((a - startAddress s) mod int_to_u64 (itemByteLen s) = 0)"
  using itemRectangleAddr_value [OF assms] by simp

theorem itemRectangleAddr_item_start_witness:
  "layout_ok widget2 \<and> fits_int widget2 \<and> in_window widget2 2 \<and>
   itemRectangleAddr widget2 2 = Some 2"
  using itemRectangleAddr_item_start [OF widget2_ok widget2_window(2)] widget2_ok widget2_window(2)
  by (simp add: widget2_def widget0_def int_to_u64_def)

section \<open>Moving the cursor\<close>

lemma itemRowByteLen_update [simp]:
  "itemRowByteLen (s\<lparr>cursor_addr := a\<rparr>) = itemRowByteLen s"
  "itemRowByteLen (s\<lparr>cursorEnabled := b\<rparr>) = itemRowByteLen s"
  "itemRowByteLen (s\<lparr>cursor_isVisible := b\<rparr>) = itemRowByteLen s"
  "itemRowByteLen (s\<lparr>startAddress := a\<rparr>) = itemRowByteLen s"
  "itemRowByteLen (s\<lparr>memCache := c\<rparr>) = itemRowByteLen s"
  by (simp_all add: itemRowByteLen_def itemGroupByteLen_def)

lemma bytesPerScreen_update [simp]:
  "bytesPerScreen (s\<lparr>cursor_addr := a\<rparr>) = bytesPerScreen s"
  "bytesPerScreen (s\<lparr>cursorEnabled := b\<rparr>) = bytesPerScreen s"
  "bytesPerScreen (s\<lparr>cursor_isVisible := b\<rparr>) = bytesPerScreen s"
  "bytesPerScreen (s\<lparr>startAddress := a\<rparr>) = bytesPerScreen s"
  "bytesPerScreen (s\<lparr>memCache := c\<rparr>) = bytesPerScreen s"
  by (simp_all add: bytesPerScreen_def)

lemma uint_minus_int_to_u64:
  assumes "0 < i" "i < 2 ^ 64"
  shows "uint (- int_to_u64 i) = 2 ^ 64 - i"
proof -
  have "- int_to_u64 i = (word_of_int (- i) :: u64)" by (simp add: int_to_u64_def)
  moreover have "uint (word_of_int (- i) :: u64) = (- i) mod 2 ^ 64"
    unfolding uint_word_of_int take_bit_eq_mod by simp
  ultimately have "uint (- int_to_u64 i) = (- i) mod 2 ^ 64" by simp
  also have "\<dots> = 2 ^ 64 - i"
    using assms by (simp add: zmod_zminus1_eq_if)
  finally show ?thesis .
qed

lemma setCursorAddr_cursor_addr:
  "setCursorAddr io addr s = Some s' \<Longrightarrow> cursor_addr s' = addr"
  by (auto simp: setCursorAddr_def Let_def updateDataCache_def split: if_splits)

lemma int_to_u64_neq_0: "0 < i \<Longrightarrow> i < 2 ^ 64 \<Longrightarrow> int_to_u64 i \<noteq> 0"
  using uint_int_to_u64 [of i] by auto

lemma setCursorAddr_Some:
  assumes "0 < itemRowByteLen s" "itemRowByteLen s < 2 ^ 31"
  shows "\<exists>s'. setCursorAddr io addr s = Some s'"
proof -
  have "int_to_u64 (itemRowByteLen s) \<noteq> 0"
    by (rule int_to_u64_neq_0) (use assms in simp_all)
  then show ?thesis by (simp add: setCursorAddr_def Let_def)
qed

lemma row_aligned_eq:
  assumes "0 < itemRowByteLen s" "itemRowByteLen s < 2 ^ 31"
  shows "addr - addr mod int_to_u64 (itemRowByteLen s) = row_aligned s addr"
proof -
  have "addr mod int_to_u64 (itemRowByteLen s) = int_to_u64 (uint addr mod itemRowByteLen s)"
    by (rule u64_mod_itemByteLen) (use assms in simp_all)
  then show ?thesis by (simp add: row_aligned_def int_to_u64_def)
qed

lemma row_aligned_1: "itemRowByteLen s = 1 \<Longrightarrow> row_aligned s addr = addr"
  by (simp add: row_aligned_def)

lemma setCursorAddr_eq:
  assumes R: "0 < itemRowByteLen s" "itemRowByteLen s < 2 ^ 31"
  shows "setCursorAddr io addr s =
    Some (if in_window s addr
          then s\<lparr>cursor_addr := addr, cursorEnabled := True, cursor_isVisible := True\<rparr>
          else (updateDataCache io
                 (s\<lparr>cursor_addr := addr, cursorEnabled := False,
                    startAddress :=
                      (if row_aligned s addr = startAddress s + int_to_u64 (bytesPerScreen s)
                       then startAddress s + int_to_u64 (itemRowByteLen s)
                       else row_aligned s addr)\<rparr>))
               \<lparr>cursor_isVisible := True, cursorEnabled := True\<rparr>)"
proof -
  have nz: "int_to_u64 (itemRowByteLen s) \<noteq> 0"
    by (rule int_to_u64_neq_0) (use R in simp_all)
  show ?thesis
  proof (cases "itemRowByteLen s = 1")
    case True
    then show ?thesis
      by (simp add: setCursorAddr_def Let_def in_window_def row_aligned_1)
  next
    case False
    then show ?thesis
      using nz by (simp add: setCursorAddr_def Let_def in_window_def row_aligned_eq [OF R])
  qed
qed

lemma startAddress_updateDataCache [simp]: "startAddress (updateDataCache io s) = startAddress s"
  by (simp add: updateDataCache_def Let_def)

lemma bytesPerScreen_updateDataCache [simp]: "bytesPerScreen (updateDataCache io s) = bytesPerScreen s"
  by (simp add: updateDataCache_def Let_def)

lemma itemRowByteLen_updateDataCache [simp]: "itemRowByteLen (updateDataCache io s) = itemRowByteLen s"
  by (simp add: updateDataCache_def Let_def itemRowByteLen_def itemGroupByteLen_def)

lemma uint_plus_int_to_u64:
  assumes "0 \<le> i" "uint S + i < 2 ^ 64"
  shows "uint (S + int_to_u64 i) = uint S + i"
proof -
  have "uint (S + int_to_u64 i) = (uint S + i) mod 2 ^ 64"
    by (simp add: int_to_u64_def uint_word_ariths uint_word_of_int take_bit_eq_mod mod_add_right_eq)
  also have "\<dots> = uint S + i" using assms by (simp add: mod_pos_pos_trivial)
  finally show ?thesis .
qed

lemma in_window_no_wrap:
  assumes "0 \<le> bytesPerScreen s" "uint (startAddress s) + bytesPerScreen s < 2 ^ 64"
  shows "in_window s a \<longleftrightarrow>
     uint (startAddress s) \<le> uint a \<and> uint a < uint (startAddress s) + bytesPerScreen s"
  using uint_plus_int_to_u64 [OF assms] by (simp add: in_window_def word_le_def word_less_def)

lemma row_aligned_offset:
  assumes R: "0 < itemRowByteLen s" "itemRowByteLen s < 2 ^ 31"
  shows "uint (addr - row_aligned s addr) = uint addr mod itemRowByteLen s"
proof -
  let ?m = "uint addr mod itemRowByteLen s"
  have "addr - row_aligned s addr = word_of_int ?m"
    by (simp add: row_aligned_def)
  moreover have "0 \<le> ?m" "?m < 2 ^ 64" using R mod_lt_pow [of "itemRowByteLen s" "uint addr"] by simp_all
  ultimately show ?thesis using uint_int_to_u64 [of ?m] by (simp add: int_to_u64_def)
qed

lemma visible_after:
  assumes R: "0 < itemRowByteLen s" "itemRowByteLen s < 2 ^ 31"
    and bps: "bytesPerScreen s < 2 ^ 31" and lines: "1 \<le> visibleLines s"
    and S': "S' = (if row_aligned s addr = startAddress s + int_to_u64 (bytesPerScreen s)
                       then startAddress s + int_to_u64 (itemRowByteLen s)
                       else row_aligned s addr)"
  shows "uint (addr - S') < bytesPerScreen s"
proof -
  let ?R = "itemRowByteLen s" and ?m = "uint addr mod itemRowByteLen s"
  have m: "0 \<le> ?m" "?m < ?R" using R by simp_all
  have RB: "?R \<le> bytesPerScreen s"
    using lines R mult_right_mono [of 1 "visibleLines s" ?R] by (simp add: bytesPerScreen_def)
  show ?thesis
  proof (cases "row_aligned s addr = startAddress s + int_to_u64 (bytesPerScreen s)")
    case False
    then show ?thesis using row_aligned_offset [OF R, of addr] m RB by (simp add: S')
  next
    case True
    let ?d = "bytesPerScreen s - ?R + ?m"
    have "addr - S' = (addr - row_aligned s addr) + (row_aligned s addr - S')" by simp
    also have "row_aligned s addr - S' = int_to_u64 (bytesPerScreen s - ?R)"
      using True by (simp add: S' int_to_u64_def)
    also have "addr - row_aligned s addr = int_to_u64 ?m"
      by (simp add: row_aligned_def int_to_u64_def)
    finally have "addr - S' = int_to_u64 ?d" by (simp add: int_to_u64_def)
    moreover have "0 \<le> ?d" "?d < 2 ^ 64" using m RB bps by simp_all
    ultimately have "uint (addr - S') = ?d" by (simp add: uint_int_to_u64)
    then show ?thesis using m by simp
  qed
qed


lemma widget0_row: "itemRowByteLen widget0 = 16" "bytesPerScreen widget0 = 64"
  by (simp_all add: widget0_def bytesPerScreen_def itemRowByteLen_def itemGroupByteLen_def)

section \<open>C3: the key navigation commands\<close>

text \<open>
  What each key does to the cursor address, for every state with a positive row length:
  the keys for the next and previous line and character add and subtract the row and
  item length, and both page keys add the length of the screen.
\<close>

lemma keyPressEvent_cursor_addr:
  assumes "0 < itemRowByteLen s" "itemRowByteLen s < 2 ^ 31"
  shows "map_option cursor_addr (keyPressEvent io event s) = Some (cursor_addr s + 
     (case event of MoveToNextLine \<Rightarrow> int_to_u64 (itemRowByteLen s)
       | MoveToPreviousLine \<Rightarrow> - int_to_u64 (itemRowByteLen s)
       | MoveToNextChar \<Rightarrow> int_to_u64 (itemByteLen s)
       | MoveToPreviousChar \<Rightarrow> - int_to_u64 (itemByteLen s)
       | MoveToNextPage \<Rightarrow> int_to_u64 (visibleLines s * itemRowByteLen s)
       | MoveToPreviousPage \<Rightarrow> int_to_u64 (visibleLines s * itemRowByteLen s)
       | OtherKey \<Rightarrow> 0))"
proof -
  have *: "map_option cursor_addr (setCursorAddr io a s) = Some a" for a
    using setCursorAddr_Some [OF assms, of io a] setCursorAddr_cursor_addr by fastforce
  show ?thesis
    by (cases event) (simp_all add: keyPressEvent_def moveCursor_def * int_to_u64_def)
qed

text \<open>
  The five keys that move as the spec says: in every state with a positive \<^verbatim>\<open>int\<close> row
  length the key returns, and the cursor address changes by the row length for the next
  line, by minus the row length for the previous line, by the item length for the next
  character, by minus the item length for the previous character, and by the length of
  the screen for the next page.
\<close>

theorem keyPressEvent_line_char_next_page:
  assumes "0 < itemRowByteLen s" and "itemRowByteLen s < 2 ^ 31"
  shows "map_option cursor_addr (keyPressEvent io MoveToNextLine s)
      = Some (cursor_addr s + int_to_u64 (itemRowByteLen s)) \<and>
    map_option cursor_addr (keyPressEvent io MoveToPreviousLine s)
      = Some (cursor_addr s - int_to_u64 (itemRowByteLen s)) \<and>
    map_option cursor_addr (keyPressEvent io MoveToNextChar s)
      = Some (cursor_addr s + int_to_u64 (itemByteLen s)) \<and>
    map_option cursor_addr (keyPressEvent io MoveToPreviousChar s)
      = Some (cursor_addr s - int_to_u64 (itemByteLen s)) \<and>
    map_option cursor_addr (keyPressEvent io MoveToNextPage s)
      = Some (cursor_addr s + int_to_u64 (visibleLines s * itemRowByteLen s))"
  by (simp add: keyPressEvent_cursor_addr [OF assms])

theorem keyPressEvent_line_char_next_page_witness:
  "0 < itemRowByteLen widget0 \<and> itemRowByteLen widget0 < 2 ^ 31 \<and> cursor_addr widget0 = 0 \<and>
   map_option cursor_addr (keyPressEvent io_zero MoveToNextLine widget0) = Some 16 \<and>
   map_option cursor_addr (keyPressEvent io_zero MoveToPreviousLine widget0) = Some (- 16) \<and>
   map_option cursor_addr (keyPressEvent io_zero MoveToNextChar widget0) = Some 1 \<and>
   map_option cursor_addr (keyPressEvent io_zero MoveToPreviousChar widget0) = Some (- 1) \<and>
   map_option cursor_addr (keyPressEvent io_zero MoveToNextPage widget0) = Some 64"
proof -
  have "cursor_addr widget0 = 0" "itemByteLen widget0 = 1" "visibleLines widget0 = 4"
    by (simp_all add: widget0_def)
  then show ?thesis
    using keyPressEvent_line_char_next_page [of widget0 io_zero] widget0_row
    by (simp add: int_to_u64_def)
qed

text \<open>
  C3, at the input where the code leaves it: with the cursor at address 64 of a
  four-line window of 16-byte rows, the key for the previous page moves the cursor
  forward by the 64 bytes of the screen, to 128, where C3 has it go back to 0. The
  branch for \<^verbatim>\<open>MoveToPreviousPage\<close> passes the same positive offset as the branch for
  \<^verbatim>\<open>MoveToNextPage\<close>.
\<close>

theorem keyPressEvent_previous_page_moves_forward:
  "map_option cursor_addr (keyPressEvent io_zero MoveToPreviousPage (widget0\<lparr>cursor_addr := 64\<rparr>))
     = Some 128 \<and>
   visibleLines (widget0\<lparr>cursor_addr := 64\<rparr>) * itemRowByteLen (widget0\<lparr>cursor_addr := 64\<rparr>) = 64"
  by (simp add: keyPressEvent_cursor_addr widget0_row int_to_u64_def) (simp add: widget0_def)

section \<open>C10: the cursor address wraps around at zero\<close>

text \<open>
  C10: with the cursor at address 0, the keys for the previous character and the
  previous line return, and leave the cursor at \<open>2^64\<close> minus the item length and
  \<open>2^64\<close> minus the row length. Both lengths are positive \<^verbatim>\<open>int\<close> values.
\<close>

theorem keyPressEvent_wraps_at_zero:
  assumes "cursor_addr s = 0" "0 < itemByteLen s" "itemByteLen s < 2 ^ 31" "0 < itemRowByteLen s" "itemRowByteLen s < 2 ^ 31"
  shows "map_option (\<lambda>s'. uint (cursor_addr s')) (keyPressEvent io MoveToPreviousChar s) = Some (2 ^ 64 - itemByteLen s) \<and>
    map_option (\<lambda>s'. uint (cursor_addr s')) (keyPressEvent io MoveToPreviousLine s) = Some (2 ^ 64 - itemRowByteLen s)"
proof -
  have c: "uint (- int_to_u64 (itemByteLen s)) = 2 ^ 64 - itemByteLen s"
    by (rule uint_minus_int_to_u64) (use assms in simp_all)
  have r: "uint (- int_to_u64 (itemRowByteLen s)) = 2 ^ 64 - itemRowByteLen s"
    by (rule uint_minus_int_to_u64) (use assms in simp_all)
  obtain s1 where s1: "keyPressEvent io MoveToPreviousChar s = Some s1"
      "cursor_addr s1 = - int_to_u64 (itemByteLen s)"
    using keyPressEvent_cursor_addr [OF assms(4,5), of io MoveToPreviousChar] assms(1) by auto
  obtain s2 where s2: "keyPressEvent io MoveToPreviousLine s = Some s2"
      "cursor_addr s2 = - int_to_u64 (itemRowByteLen s)"
    using keyPressEvent_cursor_addr [OF assms(4,5), of io MoveToPreviousLine] assms(1) by auto
  show ?thesis by (simp add: s1 s2 c r)
qed


theorem keyPressEvent_wraps_at_zero_witness:
  "cursor_addr widget0 = 0 \<and> itemByteLen widget0 = 1 \<and> itemRowByteLen widget0 = 16 \<and>
   map_option (\<lambda>s'. uint (cursor_addr s')) (keyPressEvent io_zero MoveToPreviousChar widget0)
     = Some (2 ^ 64 - 1) \<and>
   map_option (\<lambda>s'. uint (cursor_addr s')) (keyPressEvent io_zero MoveToPreviousLine widget0)
     = Some (2 ^ 64 - 16)"
proof -
  have "cursor_addr widget0 = 0" "itemByteLen widget0 = 1" by (simp_all add: widget0_def)
  then show ?thesis
    using keyPressEvent_wraps_at_zero [of widget0 io_zero] widget0_row by simp
qed

section \<open>C4: the window follows the cursor\<close>

text \<open>
  The rule of \<^verbatim>\<open>setCursorAddr\<close>, with the window test of the code. The function returns
  for every state with a positive row length. It leaves \<open>startAddress\<close> as it is when the
  target passes the window test of the code, moves it one row forward when the
  row-aligned target is the address just past the window, and sets it to the
  row-aligned target otherwise. When at least one line is visible the target then lies
  less than a screen after the new \<open>startAddress\<close>. The row length and the length of the
  screen are \<^verbatim>\<open>int\<close> values.
\<close>

theorem setCursorAddr_startAddress:
  assumes R: "0 < itemRowByteLen s" "itemRowByteLen s < 2 ^ 31"
    and bps: "0 \<le> bytesPerScreen s" "bytesPerScreen s < 2 ^ 31"
  shows "\<exists>s'. setCursorAddr io addr s = Some s' \<and>
     startAddress s' =
       (if in_window s addr then startAddress s
        else if row_aligned s addr = startAddress s + int_to_u64 (bytesPerScreen s)
             then startAddress s + int_to_u64 (itemRowByteLen s)
             else row_aligned s addr) \<and>
     (1 \<le> visibleLines s \<longrightarrow> uint (addr - startAddress s') < bytesPerScreen s')"
proof (cases "in_window s addr")
  case True
  then have "uint (addr - startAddress s) < bytesPerScreen s"
    using bps by (intro in_window_offset) simp_all
  then show ?thesis using True by (simp add: setCursorAddr_eq [OF R])
next
  case False
  then show ?thesis
    using visible_after [OF R bps(2) _ refl, of addr]
    by (simp add: setCursorAddr_eq [OF R])
qed


theorem setCursorAddr_startAddress_witness:
  "0 < itemRowByteLen widget0 \<and> itemRowByteLen widget0 < 2 ^ 31 \<and>
   0 \<le> bytesPerScreen widget0 \<and> bytesPerScreen widget0 < 2 ^ 31 \<and> 1 \<le> visibleLines widget0 \<and>
   \<not> in_window widget0 64 \<and> row_aligned widget0 64 = 64 \<and>
   (\<exists>s'. setCursorAddr io_zero 64 widget0 = Some s' \<and> startAddress s' = 16 \<and>
      uint (64 - startAddress s') < bytesPerScreen s')"
proof -
  have a: "\<not> in_window widget0 64" "row_aligned widget0 64 = 64" "startAddress widget0 = 0"
    "1 \<le> visibleLines widget0"
    by (simp_all add: in_window_def row_aligned_def widget0_row int_to_u64_def) (simp_all add: widget0_def)
  show ?thesis
    using setCursorAddr_startAddress [of widget0 io_zero 64] a
    by (simp add: widget0_row int_to_u64_def)
qed

text \<open>
  While the window ends below the end of the address space, the window test of the
  code is the test of the interval from \<open>startAddress\<close> to \<open>startAddress + bytesPerScreen\<close>,
  and the rule is the one of the spec: a target inside the window leaves \<open>startAddress\<close>
  as it is.
\<close>

theorem setCursorAddr_window:
  assumes R: "0 < itemRowByteLen s" "itemRowByteLen s < 2 ^ 31"
    and bps: "0 \<le> bytesPerScreen s" "bytesPerScreen s < 2 ^ 31"
    and nowrap: "uint (startAddress s) + bytesPerScreen s < 2 ^ 64"
  shows "\<exists>s'. setCursorAddr io addr s = Some s' \<and>
     startAddress s' =
       (if uint (startAddress s) \<le> uint addr \<and> uint addr < uint (startAddress s) + bytesPerScreen s
        then startAddress s
        else if row_aligned s addr = startAddress s + int_to_u64 (bytesPerScreen s)
             then startAddress s + int_to_u64 (itemRowByteLen s)
             else row_aligned s addr) \<and>
     (1 \<le> visibleLines s \<longrightarrow> uint (addr - startAddress s') < bytesPerScreen s')"
proof -
  note iw = in_window_no_wrap [OF bps(1) nowrap]
  show ?thesis
    using setCursorAddr_startAddress [OF R bps, of io addr] unfolding iw .
qed

theorem setCursorAddr_window_witness:
  "0 < itemRowByteLen widget0 \<and> itemRowByteLen widget0 < 2 ^ 31 \<and>
   0 \<le> bytesPerScreen widget0 \<and> bytesPerScreen widget0 < 2 ^ 31 \<and>
   uint (startAddress widget0) + bytesPerScreen widget0 < 2 ^ 64 \<and> 1 \<le> visibleLines widget0 \<and>
   uint (startAddress widget0) \<le> uint (63 :: u64) \<and>
   uint (63 :: u64) < uint (startAddress widget0) + bytesPerScreen widget0 \<and>
   (\<exists>s'. setCursorAddr io_zero 63 widget0 = Some s' \<and> startAddress s' = 0 \<and>
      uint (63 - startAddress s') < bytesPerScreen s')"
proof -
  have a: "startAddress widget0 = 0" "1 \<le> visibleLines widget0"
    by (simp_all add: widget0_def)
  show ?thesis
    using setCursorAddr_window [of widget0 io_zero 63] a
    by (simp add: widget0_row)
qed

text \<open>
  C4, at the input where the code leaves it. On the last screen of the address space
  the sum \<^verbatim>\<open>startAddress + bytesPerScreen()\<close> wraps around to 0, no address passes the
  window test, and the window moves although the target is inside it. From the first
  widget, \<^verbatim>\<open>setCursorAddr\<close> of the address \<open>2^64 - 64\<close> puts the window on the last 64
  addresses. The address \<open>2^64 - 1\<close> is in that window, and \<^verbatim>\<open>setCursorAddr\<close> of it moves
  \<open>startAddress\<close> to \<open>2^64 - 16\<close>. The source marks the case as not handled:
  \<^verbatim>\<open>//FIXME: handle end of address space\<close>.
\<close>

theorem setCursorAddr_last_screen_moves_window:
  "map_option startAddress (setCursorAddr io_zero (- 64) widget0) = Some (- 64) \<and>
   map_option bytesPerScreen (setCursorAddr io_zero (- 64) widget0) = Some 64 \<and>
   uint (- 64 :: u64) = 2 ^ 64 - 64 \<and> uint (- 1 :: u64) = 2 ^ 64 - 1 \<and> uint (- 16 :: u64) = 2 ^ 64 - 16 \<and>
   uint (- 64 :: u64) \<le> uint (- 1 :: u64) \<and> uint (- 1 :: u64) < uint (- 64 :: u64) + 64 \<and>
   map_option startAddress
     (Option.bind (setCursorAddr io_zero (- 64) widget0) (setCursorAddr io_zero (- 1))) = Some (- 16)"
proof -
  have R: "0 < itemRowByteLen widget0" "itemRowByteLen widget0 < 2 ^ 31" by (simp_all add: widget0_row)
  have st0: "startAddress widget0 = 0" by (simp add: widget0_def)
  define s1 where "s1 = (updateDataCache io_zero
                 (widget0\<lparr>cursor_addr := - 64, cursorEnabled := False, startAddress := - 64\<rparr>))
               \<lparr>cursor_isVisible := True, cursorEnabled := True\<rparr>"
  have w: "\<not> in_window widget0 (- 64)" "row_aligned widget0 (- 64) = - 64"
    by (simp_all add: in_window_def row_aligned_def widget0_row st0 int_to_u64_def)
  have step1: "setCursorAddr io_zero (- 64) widget0 = Some s1"
    by (simp add: setCursorAddr_eq [OF R] w widget0_row st0 int_to_u64_def s1_def)
  have s1: "itemRowByteLen s1 = 16" "bytesPerScreen s1 = 64" "startAddress s1 = - 64"
    by (simp_all add: s1_def widget0_row)
  have R1: "0 < itemRowByteLen s1" "itemRowByteLen s1 < 2 ^ 31" by (simp_all add: s1)
  have w1: "\<not> in_window s1 (- 1)" "row_aligned s1 (- 1) = - 16"
    by (simp_all add: in_window_def row_aligned_def s1 int_to_u64_def
        unsigned_minus_1_eq_mask mask_eq_exp_minus_1)
  have step2: "map_option startAddress (setCursorAddr io_zero (- 1) s1) = Some (- 16)"
    by (simp add: setCursorAddr_eq [OF R1] w1 s1 int_to_u64_def)
  show ?thesis by (simp add: step1 step2 s1 unsigned_minus_1_eq_mask mask_eq_exp_minus_1)
qed

section \<open>The cache after a refresh\<close>

lemma and_not_mask_eq: "a AND NOT (mask n) = push_bit n (drop_bit n a)" for a :: "'a::ring_bit_operations"
  by (rule bit_eqI) (auto simp add: bit_simps)

lemma int_and_not_4095: "(x::int) AND NOT (4096 - 1) = (x div 4096) * 4096"
proof -
  have "NOT (4096 - 1 :: int) = NOT (mask 12)" by (simp add: mask_eq_exp_minus_1)
  then have "x AND NOT (4096 - 1) = x AND NOT (mask 12)" by (simp only:)
  also have "\<dots> = push_bit 12 (drop_bit 12 x)" by (rule and_not_mask_eq)
  also have "\<dots> = (x div 4096) * 4096" by (simp add: push_bit_eq_mult drop_bit_eq_div)
  finally show ?thesis .
qed

lemma uint_and_not_mask: "uint (w AND NOT (mask n)) = uint w AND NOT (mask n)" for w :: "'a::len word"
  by (rule bit_eqI) (auto simp add: bit_simps bit_uint_iff dest: bit_imp_le_length)

lemma uint_and_not_4095: "uint ((w::u64) AND NOT (4096 - 1)) = (uint w div 4096) * 4096"
proof -
  have "NOT (4096 - 1 :: u64) = NOT (mask 12)" by (simp add: mask_eq_exp_minus_1)
  then have "uint (w AND NOT (4096 - 1)) = uint (w AND NOT (mask 12))" by (simp only:)
  also have "\<dots> = uint w AND NOT (mask 12)" by (rule uint_and_not_mask)
  also have "\<dots> = push_bit 12 (drop_bit 12 (uint w))" by (rule and_not_mask_eq)
  also have "\<dots> = (uint w div 4096) * 4096" by (simp add: push_bit_eq_mult drop_bit_eq_div)
  finally show ?thesis .
qed

lemma uint_and_4095: "uint ((w::u64) AND (4096 - 1)) = uint w mod 4096"
proof -
  have "(4096 - 1 :: u64) = mask 12" by (simp add: mask_eq_exp_minus_1)
  then have "uint (w AND (4096 - 1)) = uint (w AND mask 12)" by (simp only:)
  also have "\<dots> = uint (take_bit 12 w)" by (simp add: take_bit_eq_mask)
  also have "\<dots> = take_bit 12 (uint w)" by (rule unsigned_take_bit_eq)
  also have "\<dots> = uint w mod 4096" by (simp add: take_bit_eq_mod)
  finally show ?thesis .
qed

lemma read_blocks_length [simp]: "length (read_blocks io a n) = n"
  by (induction n arbitrary: a) simp_all

lemma read_blocks_nth: "i < n \<Longrightarrow> read_blocks io a n ! i = io (a + 4096 * of_nat i) 4096"
proof (induction n arbitrary: a i)
  case 0
  then show ?case by simp
next
  case (Suc n)
  show ?case
  proof (cases i)
    case 0
    then show ?thesis by simp
  next
    case (Suc j)
    then have "j < n" using Suc.prems by simp
    then show ?thesis using Suc.IH [of j "a + 4096"] Suc by (simp add: algebra_simps)
  qed
qed


lemma u64_to_int_small:
  assumes "0 \<le> i" "i < 2 ^ 31"
  shows "u64_to_int (word_of_int i) = i"
proof -
  have "uint (word_of_int i :: u64) = i"
    using assms by (simp add: uint_word_of_int take_bit_int_eq_self)
  then have "u64_to_uint (word_of_int i) = int_to_uint i"
    by (simp only: u64_to_uint_eq)
  moreover have "u64_to_int w = uint_to_int (u64_to_uint w)" for w
    by (simp add: u64_to_int_def uint_to_int_def u64_to_uint_def)
  ultimately show ?thesis using assms by (simp add: uint_to_int_small)
qed

lemma updateDataCache_memCache:
  fixes s io
  defines "f \<equiv> uint (startAddress s) mod 4096"
  assumes bps: "0 \<le> bytesPerScreen s"
  shows "memCache (updateDataCache io s) =
    (memCache s)\<lparr>firstBlockAddr := page_of (startAddress s), firstBlockOffset := f,
      blocks := read_blocks io (page_of (startAddress s)) (nat ((f + bytesPerScreen s + 4095) div 4096))\<rparr>"
proof -
  let ?S = "startAddress s"
  have "?S - (?S AND NOT (4096 - 1)) = word_of_int f"
  proof (rule word_uint_eqI)
    have le: "?S AND NOT (4096 - 1) \<le> ?S" by (rule word_and_le2)
    have "uint (?S - (?S AND NOT (4096 - 1))) = uint ?S - uint (?S AND NOT (4096 - 1))"
      using le by (simp add: uint_sub_if' word_le_def)
    also have "\<dots> = f" unfolding uint_and_not_4095 f_def
      using div_mult_mod_eq [of "uint ?S" 4096] by linarith
    finally show "uint (?S - (?S AND NOT (4096 - 1))) = uint (word_of_int f :: u64)"
      by (simp add: f_def uint_word_of_int take_bit_eq_mod)
  qed
  then have off: "u64_to_int (?S - (?S AND NOT (4096 - 1))) = f"
    by (simp add: u64_to_int_small f_def)
  have f0: "0 \<le> f" by (simp add: f_def)
  have "(f + bytesPerScreen s + (4096 - 1)) AND NOT (4096 - 1) = ((f + bytesPerScreen s + 4095) div 4096) * 4096"
    using int_and_not_4095 [of "f + bytesPerScreen s + 4095"] by simp
  moreover have "0 \<le> ((f + bytesPerScreen s + 4095) div 4096) * 4096" using f0 bps by simp
  ultimately have len: "((f + bytesPerScreen s + (4096 - 1)) AND NOT (4096 - 1)) sdiv 4096
      = (f + bytesPerScreen s + 4095) div 4096"
    by (simp add: sdiv_nonneg)
  show ?thesis
    unfolding updateDataCache_def Let_def off len by (simp add: page_of_def)
qed



lemma page_of_eq: "page_of w = w - word_of_int (uint w mod 4096)"
proof -
  have "uint (page_of w) = uint w - uint w mod 4096"
    unfolding page_of_def uint_and_not_4095 using div_mult_mod_eq [of "uint w" 4096] by linarith
  then have "word_of_int (uint (page_of w)) = (word_of_int (uint w - uint w mod 4096) :: u64)"
    by simp
  then show ?thesis by simp
qed

lemma page_offset_eq: "page_offset w = nat (uint w mod 4096)"
  by (simp add: page_offset_def uint_and_4095 [symmetric])

lemma uint_plus_mod_4096:
  "uint ((S::u64) + word_of_int off) mod 4096 = (uint S mod 4096 + off) mod 4096"
proof -
  have "uint (S + word_of_int off) = (uint S + off) mod 2 ^ 64"
    by (simp add: uint_word_ariths uint_word_of_int take_bit_eq_mod mod_add_right_eq)
  moreover have "(4096::int) dvd 2 ^ 64" by simp
  ultimately have "uint (S + word_of_int off) mod 4096 = (uint S + off) mod 4096"
    by (simp only: mod_mod_cancel)
  then show ?thesis by (simp add: mod_add_left_eq)
qed

lemma take1_drop: "k < length b \<Longrightarrow> take (Suc 0) (drop k b) = [b ! k]"
  by (simp add: take_Suc_conv_app_nth)


lemma widget0_start: "startAddress widget0 = 0" "memCache widget0 = \<lparr>firstBlockAddr = 0, firstBlockOffset = 0, blocks = []\<rparr>"
  by (simp_all add: widget0_def)



section \<open>C2: the cache covers the window\<close>

text \<open>
  C2: when every page read returns 4096 bytes, then after \<^verbatim>\<open>updateDataCache\<close> the byte at
  every offset \<open>off\<close> of the window, \<open>0 \<le> off < bytesPerScreen\<close>, is read with success,
  and it is the byte that the source returned for the address \<open>startAddress + off\<close> in
  the read of its page. The length of the screen plus two pages is an \<^verbatim>\<open>int\<close> value.
\<close>

theorem byteAt_updateDataCache:
  assumes io: "\<forall>a. length (io a 4096) = 4096"
    and off: "0 \<le> off" "off < bytesPerScreen s"
    and fits: "bytesPerScreen s < 2 ^ 31 - 8190"
  shows "byteAt (memCache (updateDataCache io s)) off
     = Some (source_byte io (startAddress s + int_to_u64 off))"
proof -
  let ?S = "startAddress s" and ?W = "startAddress s + int_to_u64 off"
  define f where "f = uint ?S mod 4096"
  define t where "t = off + f"
  define n where "n = nat ((f + bytesPerScreen s + 4095) div 4096)"
  define c where "c = memCache (updateDataCache io s)"
  have f: "0 \<le> f" "f < 4096" by (simp_all add: f_def)
  have t: "0 \<le> t" "t < f + bytesPerScreen s" using off f by (simp_all add: t_def)
  have bps: "0 \<le> bytesPerScreen s" using off by simp
  have c: "firstBlockOffset c = f" "blocks c = read_blocks io (page_of ?S) n"
    unfolding c_def updateDataCache_memCache [OF bps] by (simp_all add: f_def n_def)
  have "f + bytesPerScreen s \<le> ((f + bytesPerScreen s + 4095) div 4096) * 4096"
    using div_mult_mod_eq [of "f + bytesPerScreen s + 4095" 4096]
      pos_mod_bound [of 4096 "f + bytesPerScreen s + 4095"] by linarith
  then have "t < ((f + bytesPerScreen s + 4095) div 4096) * 4096" using t by linarith
  then have "t div 4096 < (f + bytesPerScreen s + 4095) div 4096"
    by (intro int_div_lt) simp_all
  moreover have q0: "0 \<le> t div 4096" using t by (simp add: pos_imp_zdiv_nonneg_iff)
  ultimately have q: "nat (t div 4096) < n" by (simp add: n_def)
  have k: "0 \<le> t mod 4096" "t mod 4096 < 4096" by simp_all
  have ptr: "dataPtr c off = Some (nat (t div 4096), t mod 4096)"
    using t q q0 by (simp add: dataPtr_def Let_def c sdiv_nonneg smod_nonneg t_def)
  define b where "b = io (page_of ?S + 4096 * of_nat (nat (t div 4096))) 4096"
  have blk: "blocks c ! nat (t div 4096) = b" 
    unfolding c b_def using q by (rule read_blocks_nth)
  have len: "length b = 4096" using io by (simp add: b_def)
  have k2: "t mod 4096 \<le> 4095" using pos_mod_bound [of 4096 t] by linarith
  have "nat (t mod 4096) < length b" using k2 len by simp
  then have "take (Suc 0) (drop (nat (t mod 4096)) b) = [b ! nat (t mod 4096)]"
    by (rule take1_drop)
  then have "read_bytes c (nat (t div 4096), t mod 4096) 1 = Some [b ! nat (t mod 4096)]"
    using k2 len by (simp add: read_bytes_def Let_def blk)
  then have res: "byteAt c off = Some (b ! nat (t mod 4096))"
    by (simp add: byteAt_def ptr)
  have wm: "uint ?W mod 4096 = t mod 4096"
    unfolding int_to_u64_def t_def f_def uint_plus_mod_4096 by (simp add: add.commute)
  have idx: "page_offset ?W = nat (t mod 4096)"
    by (simp only: page_offset_eq wm)
  have "page_of ?S + 4096 * of_nat (nat (t div 4096)) = page_of ?W"
  proof -
    have "(of_nat (nat (t div 4096)) :: u64) = word_of_int (t div 4096)"
      using q0 by simp
    then have "page_of ?S + 4096 * of_nat (nat (t div 4096))
       = ?S - word_of_int f + word_of_int (4096 * (t div 4096))"
      by (simp add: page_of_eq f_def)
    also have "4096 * (t div 4096) = off + f - t mod 4096"
      unfolding t_def by (simp add: minus_mod_eq_mult_div)
    also have "?S - word_of_int f + word_of_int (off + f - t mod 4096)
       = ?W - word_of_int (t mod 4096)"
      by (simp add: int_to_u64_def)
    also have "\<dots> = page_of ?W"
      by (simp only: page_of_eq [of ?W] wm)
    finally show ?thesis .
  qed
  then have "b = io (page_of ?W) 4096" by (simp add: b_def)
  then show ?thesis using res idx by (simp add: c_def source_byte_def)
qed

theorem byteAt_updateDataCache_witness:
  "(\<forall>a. length (io_zero a 4096) = 4096) \<and> (0::int) \<le> 5 \<and> 5 < bytesPerScreen widget0 \<and>
   bytesPerScreen widget0 < 2 ^ 31 - 8190 \<and>
   byteAt (memCache (updateDataCache io_zero widget0)) 5 = Some 0"
proof -
  have io: "\<forall>a. length (io_zero a 4096) = 4096" by (simp add: io_zero_def)
  have "source_byte io_zero (startAddress widget0 + int_to_u64 5) = 0"
    by (simp add: source_byte_def io_zero_def page_offset_def widget0_start int_to_u64_def)
  then show ?thesis
    using byteAt_updateDataCache [of io_zero 5 widget0] io by (simp add: widget0_row)
qed

text \<open>
  The boundary case of the spec: a window of one byte at address 0 is covered by one
  page, read at address 0.
\<close>

theorem updateDataCache_one_page:
  assumes "startAddress s = 0" and "bytesPerScreen s = 1"
  shows "memCache (updateDataCache io s) =
    (memCache s)\<lparr>firstBlockAddr := 0, firstBlockOffset := 0, blocks := [io 0 4096]\<rparr>"
  using assms by (simp add: updateDataCache_memCache page_of_def)

theorem updateDataCache_one_page_witness:
  "startAddress (widget0\<lparr>itemColumns := 1, visibleLines := 1\<rparr>) = 0 \<and>
   bytesPerScreen (widget0\<lparr>itemColumns := 1, visibleLines := 1\<rparr>) = 1 \<and>
   blocks (memCache (updateDataCache io_zero (widget0\<lparr>itemColumns := 1, visibleLines := 1\<rparr>)))
     = [io_zero 0 4096]"
proof -
  have a: "startAddress (widget0\<lparr>itemColumns := 1, visibleLines := 1\<rparr>) = 0"
    "bytesPerScreen (widget0\<lparr>itemColumns := 1, visibleLines := 1\<rparr>) = 1"
    by (simp_all add: widget0_def bytesPerScreen_def itemRowByteLen_def itemGroupByteLen_def)
  show ?thesis
    using updateDataCache_one_page [OF a, of io_zero] a by simp
qed

section \<open>C5: a failed read\<close>



section \<open>C6: the configuration setters\<close>

text \<open>\<^verbatim>\<open>setItemSize\<close> rejects a length that is not 1, 2, 4 or 8 and changes nothing.\<close>

theorem setItemSize_invalid:
  "nbytes \<notin> {1, 2, 4, 8} \<Longrightarrow> setItemSize h io nbytes s = s"
  by (simp add: setItemSize_def)

theorem setItemSize_invalid_witness:
  "(3::int) \<notin> {1, 2, 4, 8} \<and> setItemSize header0 io_zero 3 widget0 = widget0"
  using setItemSize_invalid [of 3 header0 io_zero widget0] by simp

text \<open>\<^verbatim>\<open>setColumnCount\<close> stores every column count.\<close>

lemma setColumnCount_itemColumns: "itemColumns (setColumnCount io columns s) = columns"
  by (simp add: setColumnCount_def updateDataCache_def Let_def)

text \<open>
  C6, at the input where the code leaves it: \<^verbatim>\<open>setColumnCount(0)\<close> on a widget of 16
  columns is not rejected. The widget has 0 columns afterwards, and a row length of 0.
\<close>

theorem setColumnCount_zero_accepted:
  "itemColumns widget0 = 16 \<and> itemColumns (setColumnCount io_zero 0 widget0) = 0 \<and>
   itemRowByteLen (setColumnCount io_zero 0 widget0) = 0 \<and>
   setColumnCount io_zero 0 widget0 \<noteq> widget0"
proof -
  have a: "itemColumns widget0 = 16" by (simp add: widget0_def)
  have b: "itemColumns (setColumnCount io_zero 0 widget0) = 0" by (rule setColumnCount_itemColumns)
  have "itemRowByteLen (setColumnCount io_zero 0 widget0) = 0"
    using b by (simp add: itemRowByteLen_def)
  moreover have "setColumnCount io_zero 0 widget0 \<noteq> widget0" using a b by auto
  ultimately show ?thesis using a b by simp
qed

section \<open>Rendering on examples\<close>

lemmas geom_defs = itemRowByteLen_def itemGroupByteLen_def bytesPerScreen_def columnExWidth_def
  itemWidth_def

lemmas fill_defs = fillSelectionBackground_def itemRectangle_def asciiRectangle_def selection_of_def
  geom_defs int_to_uint_def uint_to_int_def u64_to_int_def int_to_u64_def QRect_def Let_def
  setLeft_def setRight_def setBottomRight_def bottomRight_def

lemma digits_small: "n < base \<Longrightarrow> digits base n = [digit_char n]"
  by (subst digits.simps) simp

lemma digits_step:
  "2 \<le> base \<Longrightarrow> base \<le> n \<Longrightarrow> digits base n = digits base (n div base) @ [digit_char (n mod base)]"
  by (subst digits.simps) simp

lemmas config_defs = setItemSize_def setItemFormat_def updateItemLength_def updateAreasPosition_def
  updateDataCache_def with_bytes_def widget0_def Let_def hexPrefix_def

lemma hex4_fields:
  "itemByteLen widget_hex4 = 4" "itemFormat widget_hex4 = ItemFormatHex"
  "itemCharLen widget_hex4 = 10" "itemPrefixLen widget_hex4 = 2" "showExHex widget_hex4"
  "\<not> itemBigEndian widget_hex4"
  "memCache widget_hex4 = \<lparr>firstBlockAddr = 0, firstBlockOffset = 0, blocks = [[0x78, 0x56, 0x34, 0x12]]\<rparr>"
  by (simp_all add: widget_hex4_def config_defs)

lemma sdec1_fields:
  "itemByteLen widget_sdec1 = 1" "itemFormat widget_sdec1 = ItemFormatSignedDec"
  "itemCharLen widget_sdec1 = 4" "itemPrefixLen widget_sdec1 = 0"
  "memCache widget_sdec1 = \<lparr>firstBlockAddr = 0, firstBlockOffset = 0, blocks = [[0xff]]\<rparr>"
  by (simp_all add: widget_sdec1_def config_defs)

lemma hex4_plain_fields:
  "itemByteLen widget_hex4_plain = 4" "itemFormat widget_hex4_plain = ItemFormatHex"
  "itemCharLen widget_hex4_plain = 8" "itemPrefixLen widget_hex4_plain = 0" "\<not> showExHex widget_hex4_plain"
  "\<not> itemBigEndian widget_hex4_plain"
  "memCache widget_hex4_plain = \<lparr>firstBlockAddr = 0, firstBlockOffset = 0, blocks = [[0x78, 0x56, 0x34, 0x12]]\<rparr>"
  by (simp_all add: widget_hex4_plain_def config_defs)

lemmas render_defs = renderItem_def readItem_def dataPtr_def read_bytes_def Let_def
      qFromLittleEndian_def toULongLong_def toLongLong_def arg_ulonglong_def arg_longlong_def
      pad_field_def hexPrefix_def digits_small digits_step digit_char_def itemColor_def

lemma replicate_2: "replicate 2 x = [x, x]"
  by (simp add: numeral_2_eq_2)

lemma float4_fields:
  "itemByteLen widget_float4 = 4" "itemFormat widget_float4 = ItemFormatFloat"
  "itemCharLen widget_float4 = 12" "itemPrefixLen widget_float4 = 0"
  "\<not> itemBigEndian widget_float4"
  "memCache widget_float4 = \<lparr>firstBlockAddr = 0, firstBlockOffset = 0, blocks = [[0x00, 0x00, 0xc0, 0x3f]]\<rparr>"
  by (simp_all add: widget_float4_def config_defs)

lemma readItem_float4: "readItem widget_float4 0 c = Some (Float 0x3fc00000, defColor)"
  by (simp add: readItem_def dataPtr_def read_bytes_def Let_def qFromLittleEndian_def float4_fields)

lemma renderItem_float4:
  "renderItem fp widget_float4 0 c = Some (pad_field 12 CHR '' '' (double_text fp (Float 0x3fc00000)), defColor)"
  by (simp add: renderItem_def readItem_float4 float4_fields arg_double_def)

lemma length_pad_field: "0 \<le> w \<Longrightarrow> nat w \<le> length (pad_field w c str)"
  by (simp add: pad_field_def)


section \<open>C7: the reference examples of decoding and rendering\<close>

text \<open>
  C7, as stated: the four bytes 78 56 34 12 render as "12345678", the byte ff renders
  as "-1" and the bytes of the \<^verbatim>\<open>float\<close> 1.5 render as "1.5". None is what the widget shows
  after \<^verbatim>\<open>setItemSize(4)\<close>, after \<^verbatim>\<open>setItemFormat(ItemFormatSignedDec)\<close> and after
  \<^verbatim>\<open>setItemFormat(ItemFormatFloat)\<close>: the constructor switches the hexadecimal prefix on,
  and every item is padded to the width of its column, which is twelve characters for
  a \<^verbatim>\<open>float\<close>.
\<close>

theorem renderItem_examples_differ:
  "map_option fst (renderItem no_float widget_sdec1 0 defColor) \<noteq> Some ''-1'' \<and>
   map_option fst (renderItem no_float widget_hex4 0 defColor) \<noteq> Some ''12345678'' \<and>
   double_text float_1_5 (Float 0x3fc00000) = ''1.5'' \<and>
   map_option fst (renderItem float_1_5 widget_float4 0 defColor) \<noteq> Some ''1.5''"
proof -
  have "renderItem no_float widget_sdec1 0 defColor = Some (''  -1'', b0xffColor)"
    by (simp add: render_defs sdec1_fields replicate_2)
  moreover have "renderItem no_float widget_hex4 0 defColor = Some (''0x12345678'', defColor)"
    by (simp add: render_defs hex4_fields)
  moreover have "renderItem float_1_5 widget_float4 0 defColor = Some (''         1.5'', defColor)"
    by (simp add: renderItem_float4 pad_field_def float_1_5_def eval_nat_numeral)
  ultimately show ?thesis by (simp add: float_1_5_def)
qed

text \<open>
  C7, amended: with four-byte little-endian items in hexadecimal, the bytes 78 56 34 12
  render as "0x12345678" when \<open>showExHex\<close> is set, as the constructor sets it, and as
  "12345678" when it is not. With one-byte items in signed decimal, the byte ff renders
  as "  -1": "-1" right-aligned in the four characters of the column. With four-byte
  little-endian items in the \<^verbatim>\<open>float\<close> format, the bytes 00 00 c0 3f, the bits of 1.5,
  render as the characters that Qt writes for the number, right-aligned with spaces
  in the twelve characters of the column: nine spaces and "1.5" when Qt writes "1.5",
  and never the three characters "1.5" alone. All of it holds for every
  floating-point conversion of Qt and every incoming colour.
\<close>

theorem renderItem_examples:
  "renderItem fp widget_hex4 0 c = Some (''0x12345678'', defColor) \<and>
   renderItem fp widget_hex4_plain 0 c = Some (''12345678'', defColor) \<and>
   renderItem fp widget_sdec1 0 c = Some (''  -1'', b0xffColor) \<and>
   renderItem fp widget_float4 0 c =
     Some (replicate (12 - length (double_text fp (Float 0x3fc00000))) CHR '' ''
             @ double_text fp (Float 0x3fc00000), defColor) \<and>
   renderItem (fp\<lparr>double_text := \<lambda>v. ''1.5''\<rparr>) widget_float4 0 c = Some (''         1.5'', defColor) \<and>
   map_option fst (renderItem fp widget_float4 0 c) \<noteq> Some ''1.5''"
proof -
  have "renderItem fp widget_hex4 0 c = Some (''0x12345678'', defColor)"
    by (simp add: render_defs hex4_fields)
  moreover have "renderItem fp widget_hex4_plain 0 c = Some (''12345678'', defColor)"
    by (simp add: render_defs hex4_plain_fields)
  moreover have "renderItem fp widget_sdec1 0 c = Some (''  -1'', b0xffColor)"
    by (simp add: render_defs sdec1_fields replicate_2)
  moreover have "renderItem fp widget_float4 0 c =
     Some (replicate (12 - length (double_text fp (Float 0x3fc00000))) CHR '' ''
             @ double_text fp (Float 0x3fc00000), defColor)"
    by (simp add: renderItem_float4 pad_field_def)
  moreover have "renderItem (fp\<lparr>double_text := \<lambda>v. ''1.5''\<rparr>) widget_float4 0 c = Some (''         1.5'', defColor)"
    by (simp add: renderItem_float4 pad_field_def eval_nat_numeral)
  moreover have "map_option fst (renderItem fp widget_float4 0 c) \<noteq> Some ''1.5''"
  proof -
    have "12 \<le> length (pad_field 12 CHR '' '' (double_text fp (Float 0x3fc00000)))"
      using length_pad_field [of 12] by simp
    then show ?thesis by (auto simp: renderItem_float4)
  qed
  ultimately show ?thesis by simp
qed

section \<open>C9: the colour of a byte\<close>

lemma read_bytes_1:
  assumes "read_bytes c p 1 = Some bs"
  shows "\<exists>b. bs = [b]"
proof -
  let ?b = "blocks c ! fst p" and ?k = "snd p"
  from assms have k: "0 \<le> ?k" "?k + 1 \<le> int (length ?b)" and bs: "bs = take 1 (drop (nat ?k) ?b)"
    by (auto simp: read_bytes_def Let_def split: if_splits)
  have "nat ?k < length ?b" using k by linarith
  then show ?thesis using bs take1_drop [of "nat ?k" ?b] by simp
qed

lemma byteAt_read_bytes:
  "byteAt c off = Option.bind (dataPtr c off) (\<lambda>p. map_option (\<lambda>bs. qFromLittleEndian bs) (read_bytes c p 1))"
proof (cases "dataPtr c off")
  case None
  then show ?thesis by (simp add: byteAt_def)
next
  case (Some p)
  show ?thesis
  proof (cases "read_bytes c p 1")
    case None
    then show ?thesis using Some by (simp add: byteAt_def)
  next
    case (Some bs)
    then obtain b where "bs = [b]" using read_bytes_1 by blast
    then show ?thesis using Some \<open>dataPtr c off = Some p\<close>
      by (simp add: byteAt_def qFromLittleEndian_def)
  qed
qed

lemma renderItem_color: "map_option snd (renderItem fp s off c) = map_option snd (readItem s off c)"
  by (cases "readItem s off c") (auto simp: renderItem_def Let_def)

lemma readItem_color:
  "map_option snd (readItem s off c) =
     (if itemByteLen s = 1 then map_option itemColor (byteAt (memCache s) off)
      else if itemByteLen s \<in> {2, 4, 8} then map_option (\<lambda>r. defColor) (readItem s off c)
      else map_option (\<lambda>p. c) (dataPtr (memCache s) off))"
proof (cases "dataPtr (memCache s) off")
  case None
  then show ?thesis by (simp add: readItem_def byteAt_def)
next
  case (Some p)
  then show ?thesis
    by (cases "read_bytes (memCache s) p 1"; cases "read_bytes (memCache s) p 2";
        cases "read_bytes (memCache s) p 4"; cases "read_bytes (memCache s) p 8")
       (simp_all add: readItem_def byteAt_read_bytes Let_def)
qed

lemma renderAscii_color:
  "map_option snd (renderAscii s off) = map_option itemColor (byteAt (memCache s) off)"
  by (cases "byteAt (memCache s) off") (simp_all add: renderAscii_def Let_def)

lemma w2b_fields:
  "itemByteLen widget2_bytes = 2" "itemFormat widget2_bytes = ItemFormatHex"
  "\<not> itemBigEndian widget2_bytes"
  "memCache widget2_bytes = \<lparr>firstBlockAddr = 0, firstBlockOffset = 0, blocks = [[0x00, 0x41]]\<rparr>"
  by (simp_all add: widget2_bytes_def widget2_def with_bytes_def widget0_def)


text \<open>
  C9, as stated: whatever the item length, the class of the first byte of an item
  gives its colour in both panes. With two-byte items and the bytes 00 41 cached, the
  text pane colours the byte 00 by its class, and the item pane does not.
\<close>

theorem renderItem_color_not_first_byte:
  "byteAt (memCache widget2_bytes) 0 = Some 0 \<and>
   map_option snd (renderAscii widget2_bytes 0) = Some (itemColor 0) \<and>
   map_option snd (renderItem no_float widget2_bytes 0 defColor) \<noteq> Some (itemColor 0)"
proof -
  have b: "byteAt (memCache widget2_bytes) 0 = Some 0"
    by (simp add: byteAt_def dataPtr_def read_bytes_def Let_def w2b_fields)
  have "readItem widget2_bytes 0 defColor = Some (ULongLong 0x4100, defColor)"
    by (simp add: readItem_def dataPtr_def read_bytes_def Let_def w2b_fields qFromLittleEndian_def)
  then show ?thesis using b by (simp add: renderItem_color renderAscii_color itemColor_def)
qed

subsection \<open>The loops of the drawing functions\<close>

lemma class_color_eq: "class_color = itemColor"
  by (rule ext) (simp add: class_color_def itemColor_def IS_PRINTABLE_def)

lemma for_loop_returns:
  fixes f :: "'a \<Rightarrow> nat"
  assumes step: "\<And>a. I a \<Longrightarrow> f a + c \<le> N \<Longrightarrow> \<exists>b. body a = Some b \<and> I b \<and> f b = f a + c"
    and "I st" "f st + n * c \<le> N"
  shows "\<exists>st'. for_loop n body st = Some st' \<and> I st' \<and> f st' = f st + n * c"
  using assms(2,3)
proof (induction n arbitrary: st)
  case 0
  then show ?case by simp
next
  case (Suc n)
  have "f st + c \<le> N" using Suc.prems(2) by simp
  from step [OF Suc.prems(1) this] obtain m where m: "body st = Some m" "I m" "f m = f st + c"
    by blast
  have "f m + n * c \<le> N" using Suc.prems(2) m(3) by simp
  from Suc.IH [OF m(2) this] obtain st' where
    "for_loop n body m = Some st'" "I st'" "f st' = f m + n * c" by blast
  then show ?case using m by simp
qed

lemma cached_readItem:
  assumes "cached s off (nat (itemByteLen s))" "itemByteLen s \<in> {1, 2, 4, 8}"
  shows "\<exists>r. readItem s off c = Some r"
proof -
  from assms(1) obtain p bs where p: "dataPtr (memCache s) off = Some p"
    and bs: "read_bytes (memCache s) p (nat (itemByteLen s)) = Some bs"
    by (auto simp: cached_def split: option.splits)
  from assms(2) consider "itemByteLen s = 1" | "itemByteLen s = 2" | "itemByteLen s = 4" | "itemByteLen s = 8"
    by auto
  then show ?thesis
  proof cases
    case 1 then show ?thesis using p bs by (simp add: readItem_def Let_def)
  next
    case 2 then show ?thesis using p bs by (simp add: readItem_def Let_def)
  next
    case 3 then show ?thesis using p bs by (simp add: readItem_def Let_def)
  next
    case 4 then show ?thesis using p bs by (simp add: readItem_def Let_def)
  qed
qed

lemma cached_byteAt:
  assumes "cached s off 1"
  shows "\<exists>b. byteAt (memCache s) off = Some b"
proof -
  from assms obtain p bs where "dataPtr (memCache s) off = Some p"
    "read_bytes (memCache s) p 1 = Some bs"
    by (auto simp: cached_def split: option.splits)
  then show ?thesis by (simp add: byteAt_read_bytes)
qed

lemma renderItem_Some_color:
  assumes "renderItem fp s off c = Some (str, col)" "itemByteLen s \<in> {1, 2, 4, 8}"
  shows "Some col = (if itemByteLen s = 1 then map_option class_color (byteAt (memCache s) off)
                     else Some defColor)"
proof -
  from assms(1) obtain v where r: "readItem s off c = Some (v, col)"
    by (cases "readItem s off c") (auto simp: renderItem_def Let_def)
  have "Some col = map_option snd (readItem s off c)" using r by simp
  also have "\<dots> = (if itemByteLen s = 1 then map_option itemColor (byteAt (memCache s) off)
      else if itemByteLen s \<in> {2, 4, 8} then map_option (\<lambda>r. defColor) (readItem s off c)
      else map_option (\<lambda>p. c) (dataPtr (memCache s) off))"
    by (rule readItem_color)
  also have "\<dots> = (if itemByteLen s = 1 then map_option class_color (byteAt (memCache s) off)
                     else Some defColor)"
    using assms(2) by (auto simp: class_color_eq r)
  finally show ?thesis .
qed

lemma drawItem_returns:
  assumes B: "itemByteLen s \<in> {1, 2, 4, 8}"
    and cache: "\<forall>i<N. cached s (int i * itemByteLen s) (nat (itemByteLen s))"
    and I: "item_inv s selection isEmpty a" and n: "length (itemCalls a) + 1 \<le> N"
  shows "\<exists>b. drawItem fp s selection isEmpty a = Some b \<and> item_inv s selection isEmpty b \<and>
             length (itemCalls b) = length (itemCalls a) + 1"
proof -
  have off: "itemOffset a = int (length (itemCalls a)) * itemByteLen s"
    using I by (simp add: item_inv_def)
  have "cached s (itemOffset a) (nat (itemByteLen s))" using cache n by (simp add: off)
  from cached_readItem [OF this B, of "penColor a"]
  obtain v col0 where "readItem s (itemOffset a) (penColor a) = Some (v, col0)" by auto
  then obtain str col where r: "renderItem fp s (itemOffset a) (penColor a) = Some (str, col)"
    by (simp add: renderItem_def Let_def)
  let ?col = "if selectedOffset s selection isEmpty (itemOffset a) then white else col"
  let ?b = "a\<lparr>itemCalls := itemCalls a @ [DrawText (itemOffset a) (itemRect a) ?col str],
               itemRect := translate (itemWidth s) 0 (itemRect a),
               penColor := ?col,
               itemOffset := itemOffset a + itemByteLen s\<rparr>"
  have d: "drawItem fp s selection isEmpty a = Some ?b"
    by (simp add: drawItem_def r Let_def)
  have pen: "item_pen s selection isEmpty (DrawText (itemOffset a) (itemRect a) ?col str)"
    using renderItem_Some_color [OF r B] by (simp add: item_pen_def)
  have "item_inv s selection isEmpty ?b"
    using I pen unfolding item_inv_def by (simp add: algebra_simps)
  then show ?thesis using d by simp
qed

lemma drawItemColumn_returns:
  assumes B: "itemByteLen s \<in> {1, 2, 4, 8}"
    and cache: "\<forall>i<N. cached s (int i * itemByteLen s) (nat (itemByteLen s))"
    and I: "item_inv s selection isEmpty a" and n: "length (itemCalls a) + nat (itemGroupSize s) \<le> N"
  shows "\<exists>b. drawItemColumn fp s selection isEmpty a = Some b \<and> item_inv s selection isEmpty b \<and>
             length (itemCalls b) = length (itemCalls a) + nat (itemGroupSize s)"
proof -
  have "\<exists>m. for_loop (nat (itemGroupSize s)) (drawItem fp s selection isEmpty) a = Some m \<and>
          item_inv s selection isEmpty m \<and>
          length (itemCalls m) = length (itemCalls a) + nat (itemGroupSize s) * 1"
    using I n
    by (intro for_loop_returns [where I = "item_inv s selection isEmpty"
          and f = "\<lambda>st. length (itemCalls st)" and N = N] drawItem_returns [OF B cache]) simp_all
  then obtain m where m: "for_loop (nat (itemGroupSize s)) (drawItem fp s selection isEmpty) a = Some m"
    "item_inv s selection isEmpty m" "length (itemCalls m) = length (itemCalls a) + nat (itemGroupSize s)"
    by auto
  then show ?thesis by (simp add: drawItemColumn_def item_inv_def)
qed

lemma drawItemLine_returns:
  assumes B: "itemByteLen s \<in> {1, 2, 4, 8}"
    and cache: "\<forall>i<N. cached s (int i * itemByteLen s) (nat (itemByteLen s))"
    and I: "item_inv s selection isEmpty a"
    and n: "length (itemCalls a) + nat (itemColumns s) * nat (itemGroupSize s) \<le> N"
  shows "\<exists>b. drawItemLine fp s selection isEmpty a = Some b \<and> item_inv s selection isEmpty b \<and>
             length (itemCalls b) = length (itemCalls a) + nat (itemColumns s) * nat (itemGroupSize s)"
proof -
  let ?a = "a\<lparr>itemRect := moveLeft (qx1 (itemArea s)) (itemRect a)\<rparr>"
  have I': "item_inv s selection isEmpty ?a" using I by (simp add: item_inv_def)
  have "\<exists>m. for_loop (nat (itemColumns s)) (drawItemColumn fp s selection isEmpty) ?a = Some m \<and>
          item_inv s selection isEmpty m \<and>
          length (itemCalls m) = length (itemCalls ?a) + nat (itemColumns s) * nat (itemGroupSize s)"
    using I' n
    by (intro for_loop_returns [where I = "item_inv s selection isEmpty"
          and f = "\<lambda>st. length (itemCalls st)" and N = N] drawItemColumn_returns [OF B cache]) simp_all
  then obtain m where m: "for_loop (nat (itemColumns s)) (drawItemColumn fp s selection isEmpty) ?a = Some m"
    "item_inv s selection isEmpty m"
    "length (itemCalls m) = length (itemCalls a) + nat (itemColumns s) * nat (itemGroupSize s)"
    by auto
  then show ?thesis by (simp add: drawItemLine_def item_inv_def)
qed

lemma drawItemArea_returns:
  assumes B: "itemByteLen s \<in> {1, 2, 4, 8}"
    and bg: "fillSelectionBackground s selection False \<noteq> None"
    and cache: "\<forall>i < nat (visibleLines s) * (nat (itemColumns s) * nat (itemGroupSize s)).
                  cached s (int i * itemByteLen s) (nat (itemByteLen s))"
  shows "\<exists>items. drawItemArea fp s selection isEmpty color0 = Some items \<and>
           map paint_offset items = map (\<lambda>i. int i * itemByteLen s)
             [0..<nat (visibleLines s) * (nat (itemColumns s) * nat (itemGroupSize s))] \<and>
           (\<forall>p \<in> set items. item_pen s selection isEmpty p)"
proof -
  let ?N = "nat (visibleLines s) * (nat (itemColumns s) * nat (itemGroupSize s))"
  let ?st0 = "\<lparr>itemOffset = 0,
      itemRect = QRect (px (topLeft (itemArea s))) (py (topLeft (itemArea s))) (itemWidth s) (lineHeight s),
      penColor = color0, itemCalls = []\<rparr>"
  have I0: "item_inv s selection isEmpty ?st0" by (simp add: item_inv_def)
  have "\<exists>st. for_loop (nat (visibleLines s)) (drawItemLine fp s selection isEmpty) ?st0 = Some st \<and>
          item_inv s selection isEmpty st \<and>
          length (itemCalls st) = length (itemCalls ?st0)
             + nat (visibleLines s) * (nat (itemColumns s) * nat (itemGroupSize s))"
    using I0
    by (intro for_loop_returns [where I = "item_inv s selection isEmpty"
          and f = "\<lambda>st. length (itemCalls st)" and N = ?N] drawItemLine_returns [OF B cache]) simp_all
  then obtain st where st: "for_loop (nat (visibleLines s)) (drawItemLine fp s selection isEmpty) ?st0 = Some st"
    "item_inv s selection isEmpty st" "length (itemCalls st) = ?N"
    by auto
  from bg obtain background where "fillSelectionBackground s selection False = Some background" by auto
  then have "drawItemArea fp s selection isEmpty color0 = Some (itemCalls st)"
    using st(1) by (simp add: drawItemArea_def)
  then show ?thesis using st(2,3) by (simp add: item_inv_def)
qed

lemma drawAscii_returns:
  assumes cache: "\<forall>i<N. cached s (int i) 1"
    and I: "ascii_inv s selection isEmpty a" and n: "length (asciiCalls a) + 1 \<le> N"
  shows "\<exists>b. drawAscii s selection isEmpty cw a = Some b \<and> ascii_inv s selection isEmpty b \<and>
             length (asciiCalls b) = length (asciiCalls a) + 1"
proof -
  have off: "byteId a = int (length (asciiCalls a))" using I by (simp add: ascii_inv_def)
  have "cached s (byteId a) 1" using cache n by (simp add: off)
  from cached_byteAt [OF this] obtain byte where byte: "byteAt (memCache s) (byteId a) = Some byte" by auto
  then obtain ch col where r: "renderAscii s (byteId a) = Some (ch, col)"
    by (simp add: renderAscii_def Let_def)
  have "Some col = map_option snd (renderAscii s (byteId a))" using r by simp
  also have "\<dots> = map_option itemColor (byteAt (memCache s) (byteId a))"
    by (rule renderAscii_color)
  finally have col: "Some col = map_option class_color (byteAt (memCache s) (byteId a))"
    by (simp only: class_color_eq)
  let ?color = "if selectedOffset s selection isEmpty (byteId a) then white else col"
  let ?p = "if ch = CHR ''.'' then
              FillRect (byteId a) (QRect (qx1 (charRect a) + (charWidth s - cw) sdiv 2 + 1)
                                    (qy2 (charRect a) - 2 * cw) cw cw) ?color
            else DrawText (byteId a) (charRect a) ?color [ch]"
  let ?b = "a\<lparr>asciiCalls := asciiCalls a @ [?p],
              charRect := translate (charWidth s) 0 (charRect a), byteId := byteId a + 1\<rparr>"
  have d: "drawAscii s selection isEmpty cw a = Some ?b"
    using r unfolding drawAscii_def Let_def by simp
  have p: "paint_offset ?p = byteId a" "ascii_pen s selection isEmpty ?p"
    using col by (simp_all add: ascii_pen_def)
  have "ascii_inv s selection isEmpty ?b"
    using I p unfolding ascii_inv_def by simp
  then show ?thesis using d by simp
qed

lemma drawAsciiLine_returns:
  assumes cache: "\<forall>i<N. cached s (int i) 1"
    and I: "ascii_inv s selection isEmpty a" and n: "length (asciiCalls a) + nat (itemRowByteLen s) \<le> N"
  shows "\<exists>b. drawAsciiLine s selection isEmpty cw a = Some b \<and> ascii_inv s selection isEmpty b \<and>
             length (asciiCalls b) = length (asciiCalls a) + nat (itemRowByteLen s)"
proof -
  let ?a = "a\<lparr>charRect := moveLeft (qx1 (asciiArea s)) (charRect a)\<rparr>"
  have I': "ascii_inv s selection isEmpty ?a" using I by (simp add: ascii_inv_def)
  have "\<exists>m. for_loop (nat (itemRowByteLen s)) (drawAscii s selection isEmpty cw) ?a = Some m \<and>
          ascii_inv s selection isEmpty m \<and>
          length (asciiCalls m) = length (asciiCalls ?a) + nat (itemRowByteLen s) * 1"
    using I' n
    by (intro for_loop_returns [where I = "ascii_inv s selection isEmpty"
          and f = "\<lambda>st. length (asciiCalls st)" and N = N] drawAscii_returns [OF cache]) simp_all
  then obtain m where m: "for_loop (nat (itemRowByteLen s)) (drawAscii s selection isEmpty cw) ?a = Some m"
    "ascii_inv s selection isEmpty m"
    "length (asciiCalls m) = length (asciiCalls a) + nat (itemRowByteLen s)"
    by auto
  then show ?thesis by (simp add: drawAsciiLine_def ascii_inv_def)
qed

lemma drawAsciiArea_returns:
  assumes bg: "fillSelectionBackground s selection True \<noteq> None"
    and cache: "\<forall>i < nat (visibleLines s) * nat (itemRowByteLen s). cached s (int i) 1"
  shows "\<exists>chars. drawAsciiArea s selection isEmpty cw = Some chars \<and>
           map paint_offset chars = map int [0..<nat (visibleLines s) * nat (itemRowByteLen s)] \<and>
           (\<forall>p \<in> set chars. ascii_pen s selection isEmpty p)"
proof -
  let ?N = "nat (visibleLines s) * nat (itemRowByteLen s)"
  let ?st0 = "\<lparr>byteId = 0,
      charRect = QRect (px (topLeft (asciiArea s))) (py (topLeft (asciiArea s))) (charWidth s) (lineHeight s),
      asciiCalls = []\<rparr>"
  have I0: "ascii_inv s selection isEmpty ?st0" by (simp add: ascii_inv_def)
  have "\<exists>st. for_loop (nat (visibleLines s)) (drawAsciiLine s selection isEmpty cw) ?st0 = Some st \<and>
          ascii_inv s selection isEmpty st \<and>
          length (asciiCalls st) = length (asciiCalls ?st0) + nat (visibleLines s) * nat (itemRowByteLen s)"
    using I0
    by (intro for_loop_returns [where I = "ascii_inv s selection isEmpty"
          and f = "\<lambda>st. length (asciiCalls st)" and N = ?N] drawAsciiLine_returns [OF cache]) simp_all
  then obtain st where st: "for_loop (nat (visibleLines s)) (drawAsciiLine s selection isEmpty cw) ?st0 = Some st"
    "ascii_inv s selection isEmpty st" "length (asciiCalls st) = ?N"
    by auto
  from bg obtain background where "fillSelectionBackground s selection True = Some background" by auto
  then have "drawAsciiArea s selection isEmpty cw = Some (asciiCalls st)"
    using st(1) by (simp add: drawAsciiArea_def)
  then show ?thesis using st(2,3) by (simp add: ascii_inv_def)
qed

lemma wl_fields:
  "itemByteLen widget_line = 1" "itemFormat widget_line = ItemFormatHex"
  "itemCharLen widget_line = 2" "itemPrefixLen widget_line = 0"
  "itemGroupSize widget_line = 1" "itemColumns widget_line = 2" "visibleLines widget_line = 1"
  "charWidth widget_line = 8" "lineHeight widget_line = 16" "columnSpacingWidth widget_line = 8"
  "itemArea widget_line = QRect 151 0 376 64" "asciiArea widget_line = QRect 534 0 128 64"
  "startAddress widget_line = 0"
  "memCache widget_line = \<lparr>firstBlockAddr = 0, firstBlockOffset = 0, blocks = [[0x00, 0x41]]\<rparr>"
  by (simp_all add: widget_line_def with_bytes_def widget0_def)

lemma one_sdiv_smod: "(1::int) sdiv 4096 = 0" "(1::int) smod 4096 = 1"
  by (simp_all add: signed_divide_int_def signed_modulo_int_def)

lemma wl_selected:
  "selectedOffset widget_line (selection_of 1 1) False off \<longleftrightarrow> off = 1"
  by (auto simp add: selectedOffset_def selection_of_def wl_fields geom_defs int_to_u64_def u64_to_int_def)

lemma wl_fill:
  "fillSelectionBackground widget_line (selection_of 1 1) False \<noteq> None"
  "fillSelectionBackground widget_line (selection_of 1 1) True \<noteq> None"
  by (simp_all add: wl_fields fill_defs)

lemma wl_cached: "cached widget_line 0 1" "cached widget_line 1 1"
  by (simp_all add: cached_def dataPtr_def read_bytes_def Let_def wl_fields one_sdiv_smod)

lemma wl_render:
  "renderItem fp widget_line 0 c = Some (''00'', b0x00Color)"
  "renderItem fp widget_line 1 c = Some (''41'', printableColor)"
  by (simp_all add: render_defs wl_fields IS_PRINTABLE_def one_sdiv_smod)

lemma wl_ascii:
  "renderAscii widget_line 0 = Some (CHR ''.'', b0x00Color)"
  "renderAscii widget_line 1 = Some (CHR ''A'', printableColor)"
  by (simp_all add: renderAscii_def byteAt_def dataPtr_def read_bytes_def Let_def wl_fields
      itemColor_def IS_PRINTABLE_def char_of_def one_sdiv_smod bit_Suc_0_iff)

lemma wl_items:
  "drawItemArea fp widget_line (selection_of 1 1) False c =
     Some [DrawText 0 (QRect 151 0 16 16) b0x00Color ''00'', DrawText 1 (QRect 175 0 16 16) white ''41'']"
  using wl_fill(1)
  by (auto simp add: drawItemArea_def drawItemLine_def drawItemColumn_def drawItem_def
      wl_render wl_selected wl_fields geom_defs QRect_def topLeft_def moveLeft_def translate_def
      numeral_2_eq_2)

lemma wl_chars:
  "drawAsciiArea widget_line (selection_of 1 1) False 2 =
     Some [FillRect 0 (QRect 538 11 2 2) b0x00Color, DrawText 1 (QRect 542 0 8 16) white ''A'']"
  using wl_fill(2)
  by (auto simp add: drawAsciiArea_def drawAsciiLine_def drawAscii_def
      wl_ascii wl_selected wl_fields geom_defs QRect_def topLeft_def moveLeft_def translate_def
      numeral_2_eq_2 Let_def)

text \<open>
  C9, amended: let the item length be 1, 2, 4 or 8, let the selection background of
  both panes be drawn, and let every item and every byte of the screen be in the
  cache. Then \<^verbatim>\<open>drawItemArea\<close> and \<^verbatim>\<open>drawAsciiArea\<close> return. The item pane prints the items
  at the offsets 0, \<open>itemByteLen\<close>, \<open>2 * itemByteLen\<close>, ... of the screen, and the text pane
  the bytes at the offsets 0, 1, 2, ... of the screen. In both panes what is printed for
  a selected offset is white. For an offset that is not selected, the text pane prints
  the byte in the colour of its class: the colour for 00, for 7f, for ff, for the
  printable bytes 20 to 7e, and the default colour for every other byte. The item pane
  prints an item that is not selected in the colour of the class of its byte when items
  are one byte long, and in the default colour when they are 2, 4 or 8 bytes long,
  whatever their first byte is. The format has no part in any colour.
\<close>

theorem drawn_colors:
  assumes "itemByteLen s \<in> {1, 2, 4, 8}"
    and "fillSelectionBackground s selection False \<noteq> None"
    and "fillSelectionBackground s selection True \<noteq> None"
    and "\<forall>i < nat (visibleLines s) * (nat (itemColumns s) * nat (itemGroupSize s)).
           cached s (int i * itemByteLen s) (nat (itemByteLen s))"
    and "\<forall>i < nat (visibleLines s) * nat (itemRowByteLen s). cached s (int i) 1"
  shows "\<exists>items chars.
         drawItemArea fp s selection isEmpty color0 = Some items \<and>
         drawAsciiArea s selection isEmpty cursorWidth = Some chars \<and>
         map paint_offset items =
           map (\<lambda>i. int i * itemByteLen s)
             [0..<nat (visibleLines s) * (nat (itemColumns s) * nat (itemGroupSize s))] \<and>
         map paint_offset chars = map int [0..<nat (visibleLines s) * nat (itemRowByteLen s)] \<and>
         (\<forall>p \<in> set items.
            Some (paint_color p) =
              (if selectedOffset s selection isEmpty (paint_offset p) then Some white
               else if itemByteLen s = 1
                 then map_option
                        (\<lambda>b. if b = 0x00 then b0x00Color else if b = 0x7f then b0x7fColor
                             else if b = 0xff then b0xffColor
                             else if 0x20 \<le> b \<and> b \<le> 0x7e then printableColor else defColor)
                        (byteAt (memCache s) (paint_offset p))
               else Some defColor)) \<and>
         (\<forall>p \<in> set chars.
            Some (paint_color p) =
              (if selectedOffset s selection isEmpty (paint_offset p) then Some white
               else map_option
                      (\<lambda>b. if b = 0x00 then b0x00Color else if b = 0x7f then b0x7fColor
                           else if b = 0xff then b0xffColor
                           else if 0x20 \<le> b \<and> b \<le> 0x7e then printableColor else defColor)
                      (byteAt (memCache s) (paint_offset p))))"
proof -
  have c: "(\<lambda>b. if b = 0x00 then b0x00Color else if b = 0x7f then b0x7fColor
                           else if b = 0xff then b0xffColor
                           else if 0x20 \<le> b \<and> b \<le> 0x7e then printableColor else defColor) = class_color"
    by (rule ext) (simp add: class_color_def)
  from drawItemArea_returns [OF assms(1,2,4), of fp isEmpty color0]
  obtain items where items: "drawItemArea fp s selection isEmpty color0 = Some items"
    "map paint_offset items = map (\<lambda>i. int i * itemByteLen s)
             [0..<nat (visibleLines s) * (nat (itemColumns s) * nat (itemGroupSize s))]"
    "\<forall>p \<in> set items. item_pen s selection isEmpty p" by blast
  from drawAsciiArea_returns [OF assms(3,5), of isEmpty cursorWidth]
  obtain chars where chars: "drawAsciiArea s selection isEmpty cursorWidth = Some chars"
    "map paint_offset chars = map int [0..<nat (visibleLines s) * nat (itemRowByteLen s)]"
    "\<forall>p \<in> set chars. ascii_pen s selection isEmpty p" by blast
  show ?thesis
    unfolding c using items chars by (simp add: item_pen_def ascii_pen_def)
qed

theorem drawn_colors_witness:
  "itemByteLen widget_line \<in> {1, 2, 4, 8} \<and>
   fillSelectionBackground widget_line (selection_of 1 1) False \<noteq> None \<and>
   fillSelectionBackground widget_line (selection_of 1 1) True \<noteq> None \<and>
   nat (visibleLines widget_line) * (nat (itemColumns widget_line) * nat (itemGroupSize widget_line)) = 2 \<and>
   nat (visibleLines widget_line) * nat (itemRowByteLen widget_line) = 2 \<and>
   cached widget_line 0 1 \<and> cached widget_line 1 1 \<and>
   byteAt (memCache widget_line) 0 = Some 0x00 \<and> byteAt (memCache widget_line) 1 = Some 0x41 \<and>
   \<not> selectedOffset widget_line (selection_of 1 1) False 0 \<and>
   selectedOffset widget_line (selection_of 1 1) False 1 \<and>
   drawItemArea no_float widget_line (selection_of 1 1) False defColor =
     Some [DrawText 0 (QRect 151 0 16 16) b0x00Color ''00'', DrawText 1 (QRect 175 0 16 16) white ''41''] \<and>
   drawAsciiArea widget_line (selection_of 1 1) False 2 =
     Some [FillRect 0 (QRect 538 11 2 2) b0x00Color, DrawText 1 (QRect 542 0 8 16) white ''A'']"
proof -
  have b: "byteAt (memCache widget_line) 0 = Some 0x00" "byteAt (memCache widget_line) 1 = Some 0x41"
    by (simp_all add: byteAt_def dataPtr_def read_bytes_def Let_def wl_fields one_sdiv_smod)
  have n: "nat (visibleLines widget_line) * (nat (itemColumns widget_line) * nat (itemGroupSize widget_line)) = 2"
    "nat (visibleLines widget_line) * nat (itemRowByteLen widget_line) = 2"
    by (simp_all add: wl_fields geom_defs)
  have c: "\<forall>i<2. cached widget_line (int i * itemByteLen widget_line) (nat (itemByteLen widget_line))"
    "\<forall>i<2. cached widget_line (int i) 1"
    using wl_cached by (simp_all add: wl_fields(1) less_2_cases_iff)
  show ?thesis
    using drawn_colors [of widget_line "selection_of 1 1" no_float False defColor 2] wl_fill c wl_cached
    by (simp add: wl_items wl_chars wl_selected b wl_fields(1) n)
qed

section \<open>The rectangles of a selected row\<close>

lemma int_and_not_pow2: "(x::int) AND NOT (2 ^ n - 1) = (x div 2 ^ n) * 2 ^ n"
proof -
  have "(2 ^ n - 1 :: int) = mask n" by (simp add: mask_eq_exp_minus_1)
  then have "x AND NOT (2 ^ n - 1) = x AND NOT (mask n)" by (simp only:)
  also have "\<dots> = push_bit n (drop_bit n x)" by (rule and_not_mask_eq)
  also have "\<dots> = (x div 2 ^ n) * 2 ^ n" by (simp add: push_bit_eq_mult drop_bit_eq_div)
  finally show ?thesis .
qed

lemma last_of_row:
  fixes k R :: int
  assumes "0 < R"
  shows "(k * R + R - 1) div R = k" "(k * R + R - 1) mod R = R - 1"
proof -
  have e: "k * R + R - 1 = R * k + (R - 1)" by simp
  show "(k * R + R - 1) div R = k" by (rule int_div_pos_eq [OF e]) (use assms in simp_all)
  show "(k * R + R - 1) mod R = R - 1" by (rule int_mod_pos_eq [OF e]) (use assms in simp_all)
qed

lemma asciiRectangle_value:
  assumes R: "0 < itemRowByteLen s" "itemRowByteLen s < 2 ^ 31"
    and LH: "0 \<le> lineHeight s" "lineHeight s < 2 ^ 31"
    and cw: "0 \<le> charWidth s"
    and off: "0 \<le> off" "off < 2 ^ 31"
    and y: "(off div itemRowByteLen s) * lineHeight s < 2 ^ 31"
    and x: "(off mod itemRowByteLen s) * charWidth s < 2 ^ 31"
  shows "asciiRectangle s (int_to_uint off) =
    Some (QRect ((off mod itemRowByteLen s) * charWidth s + qx1 (asciiArea s))
      ((off div itemRowByteLen s) * lineHeight s + qy1 (asciiArea s))
      (charWidth s) (lineHeight s))"
proof -
  let ?R = "itemRowByteLen s"
  have nz: "int_to_uint ?R \<noteq> 0" by (rule int_to_uint_neq_0) (use R in simp_all)
  have d1: "int_to_uint off div int_to_uint ?R = int_to_uint (off div ?R)"
    using R off by (intro int_to_uint_div) simp_all
  have m1: "int_to_uint off mod int_to_uint ?R = int_to_uint (off mod ?R)"
    using R off by (intro int_to_uint_mod) simp_all
  have "0 \<le> off div ?R" using off R by (simp add: pos_imp_zdiv_nonneg_iff)
  then have y': "uint_to_int (int_to_uint ((off div ?R) * lineHeight s)) = (off div ?R) * lineHeight s"
    using y LH by (intro uint_to_int_small) simp_all
  have "0 \<le> off mod ?R" using R by simp
  then have x': "uint_to_int (int_to_uint ((off mod ?R) * charWidth s)) = (off mod ?R) * charWidth s"
    using x cw by (intro uint_to_int_small) simp_all
  show ?thesis
    unfolding asciiRectangle_def Let_def
    by (simp only: nz d1 m1 int_to_uint_mult y' x' if_False)
qed

lemma u64_to_int_int_to_u64: "0 \<le> i \<Longrightarrow> i < 2 ^ 31 \<Longrightarrow> u64_to_int (int_to_u64 i) = i"
  by (simp add: int_to_u64_def u64_to_int_small)

lemma full_row_offsets:
  assumes ok: "layout_ok s" and fits: "fits_int s"
    and k: "0 \<le> k" "k < visibleLines s"
    and nowrap: "uint (startAddress s) + bytesPerScreen s < 2 ^ 64"
    and st: "sel_start sel = startAddress s + int_to_u64 (k * itemRowByteLen s)"
    and en: "sel_end sel = startAddress s + int_to_u64 (k * itemRowByteLen s + itemRowByteLen s - 1)"
  shows "0 \<le> k * itemRowByteLen s + itemRowByteLen s - 1"
    "k * itemRowByteLen s + itemRowByteLen s - 1 < bytesPerScreen s"
    "u64_to_int (max (sel_start sel) (startAddress s) - startAddress s) = k * itemRowByteLen s"
    "u64_to_int (min (sel_end sel) (startAddress s + int_to_u64 (bytesPerScreen s)) - startAddress s)
       = k * itemRowByteLen s + itemRowByteLen s - 1"
proof -
  let ?R = "itemRowByteLen s" and ?S = "startAddress s"
  have R: "0 < ?R"
    using ok by (auto simp: layout_ok_def itemRowByteLen_def itemGroupByteLen_def)
  have b0: "0 \<le> k * ?R" using k R by simp
  show e0: "0 \<le> k * ?R + ?R - 1" using b0 R by linarith
  have "(k + 1) * ?R \<le> visibleLines s * ?R" using k R by (intro mult_right_mono) simp_all
  then show e1: "k * ?R + ?R - 1 < bytesPerScreen s"
    by (simp add: bytesPerScreen_def algebra_simps)
  have bps: "bytesPerScreen s < 2 ^ 31" using fits by (simp add: fits_int_def)
  have ub: "uint (?S + int_to_u64 (k * ?R)) = uint ?S + k * ?R"
    using b0 e1 R nowrap by (intro uint_plus_int_to_u64) simp_all
  have ue: "uint (?S + int_to_u64 (k * ?R + ?R - 1)) = uint ?S + (k * ?R + ?R - 1)"
    using e0 e1 nowrap by (intro uint_plus_int_to_u64) simp_all
  have uw: "uint (?S + int_to_u64 (bytesPerScreen s)) = uint ?S + bytesPerScreen s"
    using e0 e1 nowrap by (intro uint_plus_int_to_u64) simp_all
  have "?S \<le> ?S + int_to_u64 (k * ?R)" using b0 by (simp add: word_le_def ub)
  then have "max (sel_start sel) ?S - ?S = int_to_u64 (k * ?R)" by (simp add: st max_def)
  then show "u64_to_int (max (sel_start sel) ?S - ?S) = k * ?R"
    using b0 e1 R bps by (simp add: u64_to_int_int_to_u64)
  have "?S + int_to_u64 (k * ?R + ?R - 1) \<le> ?S + int_to_u64 (bytesPerScreen s)"
    using e1 by (simp add: word_le_def ue uw)
  then have "min (sel_end sel) (?S + int_to_u64 (bytesPerScreen s)) - ?S = int_to_u64 (k * ?R + ?R - 1)"
    by (simp add: en min_def)
  then show "u64_to_int (min (sel_end sel) (?S + int_to_u64 (bytesPerScreen s)) - ?S) = k * ?R + ?R - 1"
    using e0 e1 bps by (simp add: u64_to_int_int_to_u64)
qed

lemma last_item_rectangle:
  assumes ok: "layout_ok s" and fits: "fits_int s" and k: "0 \<le> k" "k < visibleLines s"
  shows "map_option (setLeft (qx1 (itemArea s)))
      (itemRectangle s (int_to_uint (k * itemRowByteLen s + itemRowByteLen s - 1)))
     = Some (row_rect s False k)"
proof -
  let ?R = "itemRowByteLen s" and ?G = "itemGroupByteLen s" and ?B = "itemByteLen s"
  let ?e = "k * ?R + ?R - 1"
  have B: "0 < ?B" and gs: "0 < itemGroupSize s" and cols: "0 < itemColumns s"
    using ok by (auto simp: layout_ok_def)
  have G: "0 < ?G" using B gs by (simp add: itemGroupByteLen_def)
  have R: "0 < ?R" using G cols by (simp add: itemRowByteLen_def)
  have b0: "0 \<le> k * ?R" using k R by simp
  have e0: "0 \<le> ?e" using b0 R by linarith
  have "(k + 1) * ?R \<le> visibleLines s * ?R" using k R by (intro mult_right_mono) simp_all
  then have e1: "?e < bytesPerScreen s" by (simp add: bytesPerScreen_def algebra_simps)
  have r1: "?R - 1 = ?G * (itemColumns s - 1) + (?G - 1)"
    by (simp add: itemRowByteLen_def algebra_simps)
  have g1: "?G - 1 = ?B * (itemGroupSize s - 1) + (?B - 1)"
    by (simp add: itemGroupByteLen_def algebra_simps)
  have d: "?e div ?R = k" "?e mod ?R = ?R - 1" using last_of_row [OF R] by simp_all
  have dg: "(?R - 1) div ?G = itemColumns s - 1" by (rule int_div_pos_eq [OF r1]) (use G in simp_all)
  have mg: "(?R - 1) mod ?G = ?G - 1" by (rule int_mod_pos_eq [OF r1]) (use G in simp_all)
  have db: "(?G - 1) div ?B = itemGroupSize s - 1" by (rule int_div_pos_eq [OF g1]) (use B in simp_all)
  show ?thesis
    unfolding itemRectangle_value [OF ok fits e0 e1] d dg mg db
    by (simp add: setLeft_def QRect_def row_rect_def algebra_simps)
qed

lemma last_ascii_rectangle:
  assumes ok: "layout_ok s" and fits: "fits_int s" and k: "0 \<le> k" "k < visibleLines s"
    and aw: "itemRowByteLen s * charWidth s < 2 ^ 31"
  shows "map_option (setLeft (qx1 (asciiArea s)))
      (asciiRectangle s (int_to_uint (k * itemRowByteLen s + itemRowByteLen s - 1)))
     = Some (row_rect s True k)"
proof -
  let ?R = "itemRowByteLen s"
  let ?e = "k * ?R + ?R - 1"
  have R: "0 < ?R" and cw: "0 < charWidth s"
    using ok by (auto simp: layout_ok_def itemRowByteLen_def itemGroupByteLen_def)
  have b0: "0 \<le> k * ?R" using k R by simp
  have e0: "0 \<le> ?e" using b0 R by linarith
  have "(k + 1) * ?R \<le> visibleLines s * ?R" using k R by (intro mult_right_mono) simp_all
  then have e1: "?e < bytesPerScreen s" by (simp add: bytesPerScreen_def algebra_simps)
  note f = geom_facts [OF ok fits e0 e1]
  have d: "?e div ?R = k" "?e mod ?R = ?R - 1" using last_of_row [OF R] by simp_all
  have "(?R - 1) * charWidth s \<le> ?R * charWidth s" using cw by (intro mult_right_mono) simp_all
  then have x: "(?e mod ?R) * charWidth s < 2 ^ 31" using aw unfolding d by linarith
  have y: "(?e div ?R) * lineHeight s < 2 ^ 31" using f(14) .
  have "asciiRectangle s (int_to_uint ?e) =
    Some (QRect ((?e mod ?R) * charWidth s + qx1 (asciiArea s))
      ((?e div ?R) * lineHeight s + qy1 (asciiArea s)) (charWidth s) (lineHeight s))"
    by (rule asciiRectangle_value [OF f(3) f(4) _ f(10) _ e0 f(19) y x]) (use f(9) cw in simp_all)
  then show ?thesis
    unfolding d by (simp add: setLeft_def QRect_def row_rect_def algebra_simps)
qed

lemma widget3_eq: "widget3 = widget0\<lparr>itemColumns := 3, memCache := \<lparr>firstBlockAddr = 0, firstBlockOffset = 0, blocks = [io_zero 0 4096]\<rparr>\<rparr>"
  unfolding widget3_def setColumnCount_def
  by (subst updateDataCache_def) (simp add: Let_def geom_defs widget0_def u64_to_int_def)

lemma widget3_ok: "layout_ok widget3" "fits_int widget3" "itemRowByteLen widget3 = 3"
  by (simp_all add: widget3_eq widget0_def layout_ok_def fits_int_def geom_defs)

lemma widget0_ok: "layout_ok widget0" "fits_int widget0"
  by (simp_all add: widget0_def layout_ok_def fits_int_def geom_defs)


section \<open>C8: the highlight of one full row\<close>

text \<open>
  C8, as stated: a selection that spans exactly one row is filled as a single rectangle
  over the row. It fails when the row length is not a power of two: with rows of three
  bytes, the selection of the bytes 3 to 5, the second row, is filled as two rectangles
  over that row, a top piece and a bottom piece. It also fails in a widget of 16
  columns when the end of the selection is read as the address after the last selected
  byte, as in the spec's data model: the selection from 16 with end 32 is filled as the
  first item of the third row and a main body.
\<close>

theorem fillSelectionBackground_two_pieces:
  "layout_ok widget3 \<and> fits_int widget3 \<and> itemRowByteLen widget3 = 3 \<and>
   fillSelectionBackground widget3 (selection_of 3 5) False =
     Some [\<lparr>qx1 = 151, qy1 = 16, qx2 = 526, qy2 = 31\<rparr>, \<lparr>qx1 = 151, qy1 = 16, qx2 = 214, qy2 = 31\<rparr>] \<and>
   fillSelectionBackground widget0 (selection_of 16 32) False =
     Some [\<lparr>qx1 = 151, qy1 = 32, qx2 = 166, qy2 = 47\<rparr>, \<lparr>qx1 = 151, qy1 = 16, qx2 = 661, qy2 = 31\<rparr>]"
proof -
  have "fillSelectionBackground widget3 (selection_of 3 5) False =
      Some [\<lparr>qx1 = 151, qy1 = 16, qx2 = 526, qy2 = 31\<rparr>, \<lparr>qx1 = 151, qy1 = 16, qx2 = 214, qy2 = 31\<rparr>]"
    by (simp add: widget3_eq widget0_def fill_defs)
  moreover have "fillSelectionBackground widget0 (selection_of 16 32) False =
      Some [\<lparr>qx1 = 151, qy1 = 32, qx2 = 166, qy2 = 47\<rparr>, \<lparr>qx1 = 151, qy1 = 16, qx2 = 661, qy2 = 31\<rparr>]"
    by (simp add: widget0_def fill_defs)
  ultimately show ?thesis using widget3_ok by simp
qed

text \<open>
  C8, amended: in a valid layout whose screen fits in \<^verbatim>\<open>int\<close>, whose row length is a power
  of two and whose window ends below the end of the address space, that is with
  \<open>startAddress + bytesPerScreen < 2^64\<close>, let the
  selection intersect the window, start at the first address of the visible row \<open>k\<close>
  and end at the last address of that row. Then \<^verbatim>\<open>fillSelectionBackground\<close> returns and
  fills exactly one rectangle in either pane: the whole row \<open>k\<close>, from the left edge of
  the pane to the right edge of the last item or character of the row.
\<close>

theorem fillSelectionBackground_full_row:
  assumes ok: "layout_ok s" and fits: "fits_int s"
    and aw: "itemRowByteLen s * charWidth s < 2 ^ 31"
    and pow: "itemRowByteLen s = 2 ^ n"
    and k: "0 \<le> k" "k < visibleLines s"
    and nowrap: "uint (startAddress s) + bytesPerScreen s < 2 ^ 64"
    and inter: "sel_intersects sel (startAddress s) (startAddress s + int_to_u64 (bytesPerScreen s))"
    and st: "sel_start sel = startAddress s + int_to_u64 (k * itemRowByteLen s)"
    and en: "sel_end sel = startAddress s + int_to_u64 (k * itemRowByteLen s + itemRowByteLen s - 1)"
  shows "fillSelectionBackground s sel ascii = Some [row_rect s ascii k]"
proof -
  let ?R = "itemRowByteLen s"
  let ?b = "k * ?R" and ?e = "k * ?R + ?R - 1"
  note o = full_row_offsets [OF ok fits k nowrap st en]
  have R: "0 < ?R" using pow by simp
  have s2: "(?b + (?R - 1)) AND NOT (?R - 1) = ?b"
    using int_and_not_pow2 [of "?b + (?R - 1)" n] last_of_row(1) [OF R, of k]
    by (simp add: pow [symmetric] algebra_simps)
  have e2: "?e AND NOT (?R - 1) = ?b"
    using int_and_not_pow2 [of ?e n] last_of_row(1) [OF R, of k]
    by (simp add: pow [symmetric])
  have rect: "(if ascii then asciiRectangle s (int_to_uint ?e) else itemRectangle s (int_to_uint ?e))
      = Some r \<Longrightarrow> setLeft (if ascii then qx1 (asciiArea s) else qx1 (itemArea s)) r = row_rect s ascii k" for r
    using last_item_rectangle [OF ok fits k] last_ascii_rectangle [OF ok fits k aw]
    by (cases ascii) auto
  obtain r where r: "(if ascii then asciiRectangle s (int_to_uint ?e) else itemRectangle s (int_to_uint ?e)) = Some r"
    using last_item_rectangle [OF ok fits k] last_ascii_rectangle [OF ok fits k aw]
    by (cases ascii) auto
  show ?thesis
    unfolding fillSelectionBackground_def Let_def o(3,4) s2 e2
    using inter r rect [OF r] by simp
qed


theorem fillSelectionBackground_full_row_witness:
  "layout_ok widget0 \<and> fits_int widget0 \<and> itemRowByteLen widget0 * charWidth widget0 < 2 ^ 31 \<and>
   itemRowByteLen widget0 = 2 ^ 4 \<and> (0::int) \<le> 1 \<and> 1 < visibleLines widget0 \<and>
   uint (startAddress widget0) + bytesPerScreen widget0 < 2 ^ 64 \<and>
   sel_intersects (selection_of 16 31) (startAddress widget0)
     (startAddress widget0 + int_to_u64 (bytesPerScreen widget0)) \<and>
   sel_start (selection_of 16 31) = startAddress widget0 + int_to_u64 (1 * itemRowByteLen widget0) \<and>
   sel_end (selection_of 16 31)
     = startAddress widget0 + int_to_u64 (1 * itemRowByteLen widget0 + itemRowByteLen widget0 - 1) \<and>
   fillSelectionBackground widget0 (selection_of 16 31) False
     = Some [\<lparr>qx1 = 151, qy1 = 16, qx2 = 526, qy2 = 31\<rparr>]"
proof -
  have a: "itemRowByteLen widget0 * charWidth widget0 < 2 ^ 31" "itemRowByteLen widget0 = 2 ^ 4"
    "(1::int) < visibleLines widget0" "uint (startAddress widget0) + bytesPerScreen widget0 < 2 ^ 64"
    by (simp_all add: widget0_def geom_defs)
  have b: "sel_intersects (selection_of 16 31) (startAddress widget0)
      (startAddress widget0 + int_to_u64 (bytesPerScreen widget0))"
    "sel_start (selection_of 16 31) = startAddress widget0 + int_to_u64 (1 * itemRowByteLen widget0)"
    "sel_end (selection_of 16 31)
      = startAddress widget0 + int_to_u64 (1 * itemRowByteLen widget0 + itemRowByteLen widget0 - 1)"
    by (simp_all add: selection_of_def widget0_def geom_defs int_to_u64_def)
  have "row_rect widget0 False 1 = \<lparr>qx1 = 151, qy1 = 16, qx2 = 526, qy2 = 31\<rparr>"
    by (simp add: row_rect_def widget0_def geom_defs QRect_def)
  then have "fillSelectionBackground widget0 (selection_of 16 31) False
      = Some [\<lparr>qx1 = 151, qy1 = 16, qx2 = 526, qy2 = 31\<rparr>]"
    using fillSelectionBackground_full_row [OF widget0_ok a(1,2) _ a(3,4) b, of False] by simp
  then show ?thesis using widget0_ok a b by simp
qed

end
